theory Spec2Isabelle
  imports Complex_Main "HOL-Library.AList" "HOL-Library.Sublist" "HOL-Library.Word"
begin

section \<open>PeerDrop: the useWebRTC hook\<close>

text \<open>
  A shallow embedding of the session hook \<^verbatim>\<open>useWebRTC\<close> (connection state machine,
  inbound frame handler, chunked file sender). React state and refs become the fields of
  one record that every handler takes and returns; a JavaScript exception becomes the
  \<open>Inl\<close> branch of a sum; the platform (\<^verbatim>\<open>JSON\<close>, \<^verbatim>\<open>RTCPeerConnection\<close>,
  \<^verbatim>\<open>crypto.randomUUID\<close>, \<^verbatim>\<open>Date.now\<close>) is a parameter.
\<close>

subsection \<open>JavaScript values and exceptions\<close>

text \<open>
  The values \<^verbatim>\<open>JSON.parse\<close> can return, and \<^verbatim>\<open>undefined\<close>, which a missing
  property reads as. Numbers are carried, never computed with, by the code modelled here.
\<close>

datatype jsval =
    JUndefined
  | JNull
  | JBool bool
  | JNum real
  | JStr string
  | JArr "jsval list"
  | JObj "(string \<times> jsval) list"

datatype js_error = SyntaxError | TypeError | InvalidStateError

text \<open>
  Reading a property \<^verbatim>\<open>v.k\<close>, for the two keys the hook reads (\<^verbatim>\<open>type\<close> and
  \<^verbatim>\<open>payload\<close>): on \<^verbatim>\<open>null\<close> and \<^verbatim>\<open>undefined\<close> it throws a TypeError, on an
  object it is the property or \<^verbatim>\<open>undefined\<close>, on any other value (boolean, number,
  string, array) it is \<^verbatim>\<open>undefined\<close>.
\<close>

fun get_prop :: "jsval \<Rightarrow> string \<Rightarrow> js_error + jsval" where
  "get_prop JUndefined k = Inl TypeError"
| "get_prop JNull k = Inl TypeError"
| "get_prop (JObj ps) k = Inr (case map_of ps k of None \<Rightarrow> JUndefined | Some v \<Rightarrow> v)"
| "get_prop (JBool b) k = Inr JUndefined"
| "get_prop (JNum n) k = Inr JUndefined"
| "get_prop (JStr s) k = Inr JUndefined"
| "get_prop (JArr vs) k = Inr JUndefined"

text \<open>Sequencing of fallible steps: the first exception ends the block.\<close>

definition bind_err :: "js_error + 'a \<Rightarrow> ('a \<Rightarrow> js_error + 'b) \<Rightarrow> js_error + 'b" where
  "bind_err m f = (case m of Inl e \<Rightarrow> Inl e | Inr x \<Rightarrow> f x)"

subsection \<open>Types of the hook (types.ts)\<close>

datatype ConnectionState = Disconnected | Connecting | Connected | Failed

datatype sender = Me | Peer

type_synonym bytes = "8 word list"

text \<open>
  A \<^verbatim>\<open>Blob\<close> as the code builds it: the concatenated parts and the \<^verbatim>\<open>type\<close> option
  it was given. \<^verbatim>\<open>URL.createObjectURL\<close> returns a handle that resolves to the blob;
  the handle is modelled by the blob it resolves to.
\<close>

record blob =
  blob_bytes :: bytes
  blob_type :: jsval

datatype object_url = ObjectURL blob

text \<open>
  A log entry. \<open>TextMessage\<close> and \<open>FileMessage\<close> are the two interfaces of types.ts;
  at run time \<^verbatim>\<open>fileInfo\<close> of a received file is whatever value the peer announced, so it
  is a \<open>jsval\<close>. \<open>SpreadMessage\<close> is the object \<^verbatim>\<open>{...message, sender: 'peer'}\<close> built
  from a parsed record of type \<^verbatim>\<open>text\<close>: the record's own properties with \<^verbatim>\<open>sender\<close>
  set.
\<close>

datatype ReceivedMessage =
    TextMessage (msg_id: string) (content: string) (msg_sender: sender) (timestamp: real)
  | FileMessage (msg_id: string) (msg_sender: sender) (timestamp: real)
      (fileInfo: jsval) (downloadUrl: object_url)
  | SpreadMessage "(string \<times> jsval) list"

record FileInfo =
  fi_name :: string
  fi_size :: nat
  fi_type :: string

definition FileInfo_js :: "FileInfo \<Rightarrow> jsval" where
  "FileInfo_js fi =
     JObj [(''name'', JStr (fi_name fi)), (''size'', JNum (real (fi_size fi))),
           (''type'', JStr (fi_type fi))]"

text \<open>The two control records sendFile builds (FileMetaMessage, FileEndMessage).\<close>

definition FileMetaMessage :: "jsval \<Rightarrow> jsval" where
  "FileMetaMessage info = JObj [(''type'', JStr ''file-meta''), (''payload'', info)]"

definition FileEndMessage :: jsval where
  "FileEndMessage = JObj [(''type'', JStr ''file-end'')]"

subsection \<open>The data channel and the connection handle\<close>

datatype ready_state = DCConnecting | DCOpen | DCClosing | DCClosed

datatype frame = FText string | FBinary bytes

text \<open>
  Bookkeeping, not part of the source: which call handed a frame to \<^verbatim>\<open>send\<close> (sendText,
  or the sendFile call with the given number), and which sendFile call made a closure.
  The calls of sendFile are numbered in the order they are made.
\<close>

datatype origin = ByText | ByFile nat

datatype continuation = ResumeSendChunk nat

text \<open>
  \<^verbatim>\<open>RTCDataChannel\<close>: the fields the hook reads and writes. \<open>sent\<close> records the
  arguments of the calls of \<^verbatim>\<open>send\<close>, in order, each with the call it came from.
  \<open>onbufferedamountlow\<close> is the one handler slot of the channel: empty, or the closure
  that the sendChunk of some sendFile call has put there.
\<close>

record RTCDataChannel =
  readyState :: ready_state
  bufferedAmount :: nat
  bufferedAmountLowThreshold :: nat
  onbufferedamountlow :: "continuation option"
  sent :: "(origin \<times> frame) list"

record RTCPeerConnection =
  localDescription :: "jsval option"
  remoteDescription :: "jsval option"

record file_receiver =
  info :: jsval
  chunks :: "bytes list"

text \<open>The state of the hook: the five useState cells and the three refs.\<close>

record hook =
  connectionState :: ConnectionState
  receivedMessages :: "ReceivedMessage list"
  offerSdp :: "string option"
  answerSdp :: "string option"
  errorMessage :: "string option"
  pc :: "RTCPeerConnection option"
  dc :: "RTCDataChannel option"
  fileReceiver :: "file_receiver option"

text \<open>What the platform hands to one handler call: a fresh UUID and the clock.\<close>

record env =
  randomUUID :: string
  now :: real

text \<open>The platform functions the hook calls; \<open>Inl\<close> is a throw or a rejected promise.\<close>

record platform =
  JSON_parse :: "string \<Rightarrow> js_error + jsval"
  JSON_stringify :: "jsval \<Rightarrow> string"
  pc_createOffer :: "RTCPeerConnection \<Rightarrow> js_error + jsval"
  pc_createAnswer :: "RTCPeerConnection \<Rightarrow> js_error + jsval"
  pc_setLocalDescription :: "jsval \<Rightarrow> RTCPeerConnection \<Rightarrow> js_error + RTCPeerConnection"
  pc_setRemoteDescription :: "jsval \<Rightarrow> RTCPeerConnection \<Rightarrow> js_error + RTCPeerConnection"

definition initial :: hook where
  "initial = \<lparr>connectionState = Disconnected, receivedMessages = [], offerSdp = None,
     answerSdp = None, errorMessage = None, pc = None, dc = None, fileReceiver = None\<rparr>"

subsection \<open>resetState\<close>

definition resetState :: "hook \<Rightarrow> hook" where
  "resetState s = s\<lparr>pc := None, dc := None, connectionState := Disconnected,
     receivedMessages := [], offerSdp := None, answerSdp := None, fileReceiver := None,
     errorMessage := None\<rparr>"

subsection \<open>handleDataChannelMessage\<close>

datatype message_data = DString string | DArrayBuffer bytes | DOther

text \<open>
  The body of the \<^verbatim>\<open>try\<close> block, in the source's branch order. Every step that can
  throw (\<^verbatim>\<open>JSON.parse\<close>, \<^verbatim>\<open>message.type\<close>, \<^verbatim>\<open>info.type\<close>) comes before the first
  write of its branch, so a throw leaves the state as it was on entry.
\<close>

definition handle_try :: "platform \<Rightarrow> env \<Rightarrow> hook \<Rightarrow> string \<Rightarrow> js_error + hook" where
  "handle_try P e s d =
     bind_err (JSON_parse P d) (\<lambda>message.
     bind_err (get_prop message ''type'') (\<lambda>ty.
       if ty = JStr ''file-meta'' then
         bind_err (get_prop message ''payload'') (\<lambda>payload.
           Inr (s\<lparr>fileReceiver := Some \<lparr>info = payload, chunks = []\<rparr>\<rparr>))
       else if ty = JStr ''file-end'' \<and> fileReceiver s \<noteq> None then
         (case fileReceiver s of
            None \<Rightarrow> Inr s
          | Some r \<Rightarrow>
              bind_err (get_prop (info r) ''type'') (\<lambda>mime.
                Inr (s\<lparr>receivedMessages := receivedMessages s @
                        [FileMessage (randomUUID e) Peer (now e) (info r)
                           (ObjectURL \<lparr>blob_bytes = concat (chunks r), blob_type = mime\<rparr>)],
                      fileReceiver := None\<rparr>)))
       else if ty = JStr ''text'' then
         (case message of
            JObj props \<Rightarrow>
              Inr (s\<lparr>receivedMessages := receivedMessages s @
                      [SpreadMessage (AList.update ''sender'' (JStr ''peer'') props)]\<rparr>)
          | _ \<Rightarrow> Inr s)
       else Inr s))"

definition handle_catch :: "env \<Rightarrow> hook \<Rightarrow> string \<Rightarrow> hook" where
  "handle_catch e s d =
     s\<lparr>receivedMessages := receivedMessages s @ [TextMessage (randomUUID e) d Peer (now e)]\<rparr>"

definition handleDataChannelMessage ::
  "platform \<Rightarrow> env \<Rightarrow> hook \<Rightarrow> message_data \<Rightarrow> js_error + hook" where
  "handleDataChannelMessage P e s ev =
     (case ev of
        DString d \<Rightarrow>
          (case handle_try P e s d of
             Inr s' \<Rightarrow> Inr s'
           | Inl err \<Rightarrow> Inr (handle_catch e s d))
      | DArrayBuffer b \<Rightarrow>
          (case fileReceiver s of
             Some r \<Rightarrow> Inr (s\<lparr>fileReceiver := Some (r\<lparr>chunks := chunks r @ [b]\<rparr>)\<rparr>)
           | None \<Rightarrow> Inr s)
      | DOther \<Rightarrow> Inr s)"

text \<open>A sequence of inbound frames, each with the environment of its handler call.\<close>

fun receive_all :: "platform \<Rightarrow> hook \<Rightarrow> (env \<times> message_data) list \<Rightarrow> js_error + hook" where
  "receive_all P s [] = Inr s"
| "receive_all P s ((e, ev) # rest) =
     bind_err (handleDataChannelMessage P e s ev) (\<lambda>s'. receive_all P s' rest)"

subsection \<open>Channel and connection set-up\<close>

text \<open>
  setupDataChannel stores the channel in the ref and installs the three handlers
  \<open>dc_onopen\<close>, \<open>dc_onclose\<close> and handleDataChannelMessage on it.
\<close>

definition setupDataChannel :: "RTCDataChannel \<Rightarrow> hook \<Rightarrow> hook" where
  "setupDataChannel dataChannel s = s\<lparr>dc := Some dataChannel\<rparr>"

definition dc_onopen :: "hook \<Rightarrow> hook" where
  "dc_onopen s = s\<lparr>connectionState := Connected\<rparr>"

definition dc_onclose :: "hook \<Rightarrow> hook" where
  "dc_onclose s = resetState s"

definition new_RTCPeerConnection :: RTCPeerConnection where
  "new_RTCPeerConnection = \<lparr>localDescription = None, remoteDescription = None\<rparr>"

definition createPeerConnection :: "hook \<Rightarrow> hook" where
  "createPeerConnection s = s\<lparr>pc := Some new_RTCPeerConnection\<rparr>"

text \<open>The channel \<^verbatim>\<open>pc.createDataChannel('sendChannel')\<close> returns.\<close>

definition createDataChannel :: RTCDataChannel where
  "createDataChannel = \<lparr>readyState = DCConnecting, bufferedAmount = 0,
     bufferedAmountLowThreshold = 0, onbufferedamountlow = None, sent = []\<rparr>"

text \<open>
  onicecandidate with no candidate (gathering complete): the local description is
  serialised into the offer or the answer cell.
\<close>

definition onicecandidate_complete :: "platform \<Rightarrow> hook \<Rightarrow> hook" where
  "onicecandidate_complete P s =
     (case pc s of
        None \<Rightarrow> s
      | Some c \<Rightarrow>
          (let sdp = JSON_stringify P (case localDescription c of None \<Rightarrow> JNull | Some d \<Rightarrow> d)
           in if (case localDescription c of
                    None \<Rightarrow> False
                  | Some d \<Rightarrow> get_prop d ''type'' = Inr (JStr ''offer''))
              then s\<lparr>offerSdp := Some sdp\<rparr>
              else s\<lparr>answerSdp := Some sdp\<rparr>))"

datatype pc_state = PCNew | PCConnecting | PCConnected | PCDisconnected | PCFailed | PCClosed

definition connection_failed_text :: string where
  "connection_failed_text =
     ''Connection failed. This could be due to a network issue or firewall.''"

definition onconnectionstatechange :: "pc_state \<Rightarrow> hook \<Rightarrow> hook" where
  "onconnectionstatechange st s =
     (if st = PCFailed
      then s\<lparr>errorMessage := Some connection_failed_text, connectionState := Failed\<rparr>
      else s)"

definition ondatachannel :: "RTCDataChannel \<Rightarrow> hook \<Rightarrow> hook" where
  "ondatachannel channel s = setupDataChannel channel s"

subsection \<open>createOffer, createAnswer, setRemoteAnswer\<close>

text \<open>
  The three asynchronous functions, each run to completion (the interleavings at its
  awaits are not modelled). The result is the state the call leaves and the error its
  promise rejects with, if any.
\<close>

definition createOffer :: "platform \<Rightarrow> hook \<Rightarrow> hook \<times> js_error option" where
  "createOffer P s =
     (let s1 = setupDataChannel createDataChannel (createPeerConnection (resetState s))
      in case pc s1 of
           None \<Rightarrow> (s1, Some TypeError)
         | Some c \<Rightarrow>
             (case pc_createOffer P c of
                Inl err \<Rightarrow> (s1, Some err)
              | Inr offer \<Rightarrow>
                  (case pc_setLocalDescription P offer c of
                     Inl err \<Rightarrow> (s1, Some err)
                   | Inr c' \<Rightarrow> (s1\<lparr>pc := Some c', connectionState := Connecting\<rparr>, None))))"

definition invalid_offer_text :: string where
  "invalid_offer_text =
     ''Invalid session offer. Please copy the entire offer text and try again.''"

definition invalid_answer_text :: string where
  "invalid_answer_text =
     ''Invalid session answer. Please copy the entire answer text and try again.''"

text \<open>
  The \<^verbatim>\<open>try\<close> block of createAnswer. \<open>Inl (err, s')\<close> is a throw of \<open>err\<close> with the
  state \<open>s'\<close> reached by then (the connection handle keeps what the steps before did).
\<close>

definition createAnswer_try :: "platform \<Rightarrow> string \<Rightarrow> hook \<Rightarrow> (js_error \<times> hook) + hook" where
  "createAnswer_try P remoteOfferSdp s =
     (case JSON_parse P remoteOfferSdp of
        Inl err \<Rightarrow> Inl (err, s)
      | Inr offer \<Rightarrow>
          (case pc s of
             None \<Rightarrow> Inl (TypeError, s)
           | Some c \<Rightarrow>
               (case pc_setRemoteDescription P offer c of
                  Inl err \<Rightarrow> Inl (err, s)
                | Inr c1 \<Rightarrow>
                    (case pc_createAnswer P c1 of
                       Inl err \<Rightarrow> Inl (err, s\<lparr>pc := Some c1\<rparr>)
                     | Inr answer \<Rightarrow>
                         (case pc_setLocalDescription P answer c1 of
                            Inl err \<Rightarrow> Inl (err, s\<lparr>pc := Some c1\<rparr>)
                          | Inr c2 \<Rightarrow>
                              Inr (s\<lparr>pc := Some c2, connectionState := Connecting\<rparr>))))))"

definition createAnswer_prepare :: "hook \<Rightarrow> hook" where
  "createAnswer_prepare s = (if pc s = None then createPeerConnection (resetState s) else s)"

definition createAnswer :: "platform \<Rightarrow> string \<Rightarrow> hook \<Rightarrow> hook \<times> js_error option" where
  "createAnswer P remoteOfferSdp s =
     (case createAnswer_try P remoteOfferSdp (createAnswer_prepare s) of
        Inr s' \<Rightarrow> (s', None)
      | Inl (err, s') \<Rightarrow>
          (s'\<lparr>errorMessage := Some invalid_offer_text, connectionState := Failed\<rparr>, None))"

definition setRemoteAnswer_try :: "platform \<Rightarrow> string \<Rightarrow> hook \<Rightarrow> (js_error \<times> hook) + hook" where
  "setRemoteAnswer_try P remoteAnswerSdp s =
     (case JSON_parse P remoteAnswerSdp of
        Inl err \<Rightarrow> Inl (err, s)
      | Inr answer \<Rightarrow>
          (case pc s of
             None \<Rightarrow> Inl (TypeError, s)
           | Some c \<Rightarrow>
               (case pc_setRemoteDescription P answer c of
                  Inl err \<Rightarrow> Inl (err, s)
                | Inr c1 \<Rightarrow> Inr (s\<lparr>pc := Some c1\<rparr>))))"

definition setRemoteAnswer :: "platform \<Rightarrow> string \<Rightarrow> hook \<Rightarrow> hook \<times> js_error option" where
  "setRemoteAnswer P remoteAnswerSdp s =
     (if pc s = None then (s, None)
      else case setRemoteAnswer_try P remoteAnswerSdp s of
             Inr s' \<Rightarrow> (s', None)
           | Inl (err, s') \<Rightarrow>
               (s'\<lparr>errorMessage := Some invalid_answer_text, connectionState := Failed\<rparr>, None))"

subsection \<open>Sending\<close>

definition CHUNK_SIZE :: nat where
  "CHUNK_SIZE = 16384"

fun frame_size :: "frame \<Rightarrow> nat" where
  "frame_size (FText d) = length d"
| "frame_size (FBinary b) = length b"

text \<open>
  \<^verbatim>\<open>channel.send(x)\<close>: throws unless the channel is open; otherwise the frame is
  queued, which adds its size to \<^verbatim>\<open>bufferedAmount\<close>.
\<close>

definition dc_send :: "RTCDataChannel \<Rightarrow> origin \<Rightarrow> frame \<Rightarrow> js_error + RTCDataChannel" where
  "dc_send ch who f =
     (if readyState ch = DCOpen
      then Inr (ch\<lparr>sent := sent ch @ [(who, f)],
                  bufferedAmount := bufferedAmount ch + frame_size f\<rparr>)
      else Inl InvalidStateError)"

definition text_record :: "env \<Rightarrow> string \<Rightarrow> jsval" where
  "text_record e text =
     JObj [(''type'', JStr ''text''), (''id'', JStr (randomUUID e)), (''content'', JStr text),
           (''timestamp'', JNum (now e))]"

definition sendText :: "platform \<Rightarrow> env \<Rightarrow> string \<Rightarrow> hook \<Rightarrow> js_error + hook" where
  "sendText P e text s =
     (case dc s of
        None \<Rightarrow> Inr s
      | Some ch \<Rightarrow>
          if readyState ch = DCOpen then
            bind_err (dc_send ch ByText (FText (JSON_stringify P (text_record e text)))) (\<lambda>ch'.
              Inr (s\<lparr>dc := Some ch',
                     receivedMessages := receivedMessages s @
                       [TextMessage (randomUUID e) text Me (now e)]\<rparr>))
          else Inr s)"

record File =
  file_name :: string
  file_type :: string
  file_bytes :: bytes

text \<open>
  What one call of sendFile keeps in its closures: the file and its \<^verbatim>\<open>fileInfo\<close>, the
  buffer and the offset of \<^verbatim>\<open>reader.onload\<close>, and what it has pending with the
  platform: the read (\<open>reader_pending\<close>) and the \<^verbatim>\<open>setTimeout\<close> (\<open>timer_pending\<close>).
  \<open>finished\<close> records that the branch that sends file-end has run.
\<close>

record transfer =
  t_file :: File
  t_fileInfo :: FileInfo
  buffer :: bytes
  offset :: nat
  reader_pending :: bool
  timer_pending :: bool
  finished :: bool

text \<open>sendFile, as the call number \<open>k\<close>: up to \<^verbatim>\<open>reader.readAsArrayBuffer(file)\<close>.\<close>

definition sendFile ::
  "platform \<Rightarrow> nat \<Rightarrow> File \<Rightarrow> hook \<Rightarrow> js_error + hook \<times> transfer option" where
  "sendFile P k file s =
     (case dc s of
        None \<Rightarrow> Inr (s, None)
      | Some ch \<Rightarrow>
          if readyState ch \<noteq> DCOpen then Inr (s, None)
          else
            (let fileInfo = \<lparr>fi_name = file_name file, fi_size = length (file_bytes file),
                             fi_type = file_type file\<rparr>
             in bind_err
                  (dc_send ch (ByFile k)
                     (FText (JSON_stringify P (FileMetaMessage (FileInfo_js fileInfo)))))
                  (\<lambda>ch'. Inr (s\<lparr>dc := Some ch'\<rparr>,
                     Some \<lparr>t_file = file, t_fileInfo = fileInfo, buffer = [], offset = 0,
                           reader_pending = True, timer_pending = False, finished = False\<rparr>))))"

text \<open>
  sendChunk of the sendFile call number \<open>k\<close>, on the hook and the closure variables of
  that call. The handler it installs replaces whatever the slot held.
\<close>

definition sendChunk ::
  "platform \<Rightarrow> env \<Rightarrow> nat \<Rightarrow> hook \<times> transfer \<Rightarrow> js_error + hook \<times> transfer" where
  "sendChunk P e k st =
     (case st of (s, t) \<Rightarrow>
        (case dc s of
           None \<Rightarrow> Inl TypeError
         | Some ch \<Rightarrow>
             if offset t \<ge> length (buffer t) then
               bind_err (dc_send ch (ByFile k) (FText (JSON_stringify P FileEndMessage))) (\<lambda>ch'.
                 Inr (s\<lparr>dc := Some ch',
                        receivedMessages := receivedMessages s @
                          [FileMessage (randomUUID e) Me (now e) (FileInfo_js (t_fileInfo t))
                             (ObjectURL \<lparr>blob_bytes = file_bytes (t_file t),
                                         blob_type = JStr (file_type (t_file t))\<rparr>)]\<rparr>,
                      t\<lparr>finished := True\<rparr>))
             else if bufferedAmount ch > bufferedAmountLowThreshold ch then
               Inr (s\<lparr>dc := Some (ch\<lparr>onbufferedamountlow := Some (ResumeSendChunk k)\<rparr>)\<rparr>, t)
             else
               (let chunk = take CHUNK_SIZE (drop (offset t) (buffer t))
                in bind_err (dc_send ch (ByFile k) (FBinary chunk)) (\<lambda>ch'.
                     Inr (s\<lparr>dc := Some ch'\<rparr>,
                          t\<lparr>offset := offset t + length chunk, timer_pending := True\<rparr>)))))"

text \<open>
  What can happen on an open channel, one call or callback at a time: the application calls
  sendFile or sendText, a frame arrives, the platform delivers the bytes of the file of
  call \<open>k\<close>, runs the timer of call \<open>k\<close>, fires \<^verbatim>\<open>bufferedamountlow\<close>, or changes
  \<^verbatim>\<open>bufferedAmount\<close> (to any value: the channel drains). The state is the hook and the
  closures of the sendFile calls so far, in call order.
\<close>

datatype sender_event =
    SendFile File
  | SendText string
  | Inbound message_data
  | ReaderLoad nat
  | TimerFired nat
  | BufferedAmountLow
  | BufferedAmountChanged nat

fun is_SendFile :: "sender_event \<Rightarrow> bool" where
  "is_SendFile (SendFile file) = True"
| "is_SendFile ev = False"

text \<open>A callback of call \<open>k\<close> runs sendChunk on its closure and stores the closure back.\<close>

definition run_sendChunk ::
  "platform \<Rightarrow> env \<Rightarrow> nat \<Rightarrow> hook \<Rightarrow> transfer list \<Rightarrow> transfer \<Rightarrow>
     js_error + hook \<times> transfer list" where
  "run_sendChunk P e k s ts t =
     bind_err (sendChunk P e k (s, t)) (\<lambda>(s', t'). Inr (s', ts[k := t']))"

definition sender_step ::
  "platform \<Rightarrow> env \<Rightarrow> sender_event \<Rightarrow> hook \<times> transfer list \<Rightarrow>
     js_error + hook \<times> transfer list" where
  "sender_step P e ev st =
     (case st of (s, ts) \<Rightarrow>
        (case ev of
           SendFile file \<Rightarrow>
             bind_err (sendFile P (length ts) file s) (\<lambda>(s', made).
               Inr (s', case made of None \<Rightarrow> ts | Some t \<Rightarrow> ts @ [t]))
         | SendText text \<Rightarrow> bind_err (sendText P e text s) (\<lambda>s'. Inr (s', ts))
         | Inbound d \<Rightarrow> bind_err (handleDataChannelMessage P e s d) (\<lambda>s'. Inr (s', ts))
         | ReaderLoad k \<Rightarrow>
             if k < length ts \<and> reader_pending (ts ! k)
             then run_sendChunk P e k s ts
                    ((ts ! k)\<lparr>reader_pending := False, buffer := file_bytes (t_file (ts ! k)),
                       offset := 0\<rparr>)
             else Inr (s, ts)
         | TimerFired k \<Rightarrow>
             if k < length ts \<and> timer_pending (ts ! k)
             then run_sendChunk P e k s ts ((ts ! k)\<lparr>timer_pending := False\<rparr>)
             else Inr (s, ts)
         | BufferedAmountLow \<Rightarrow>
             (case dc s of
                None \<Rightarrow> Inr (s, ts)
              | Some ch \<Rightarrow>
                  (case onbufferedamountlow ch of
                     None \<Rightarrow> Inr (s, ts)
                   | Some (ResumeSendChunk k) \<Rightarrow>
                       if k < length ts
                       then run_sendChunk P e k
                              (s\<lparr>dc := Some (ch\<lparr>onbufferedamountlow := None\<rparr>)\<rparr>) ts (ts ! k)
                       else Inr (s\<lparr>dc := Some (ch\<lparr>onbufferedamountlow := None\<rparr>)\<rparr>, ts)))
         | BufferedAmountChanged n \<Rightarrow>
             (case dc s of
                None \<Rightarrow> Inr (s, ts)
              | Some ch \<Rightarrow> Inr (s\<lparr>dc := Some (ch\<lparr>bufferedAmount := n\<rparr>)\<rparr>, ts))))"

fun sender_run ::
  "platform \<Rightarrow> (env \<times> sender_event) list \<Rightarrow> hook \<times> transfer list \<Rightarrow>
     js_error + hook \<times> transfer list" where
  "sender_run P [] st = Inr st"
| "sender_run P ((e, ev) # rest) st = bind_err (sender_step P e ev st) (sender_run P rest)"

text \<open>The frames the channel of a state has been given, in order, and those of call \<open>k\<close>.\<close>

definition frames_sent :: "hook \<Rightarrow> (origin \<times> frame) list" where
  "frames_sent s = (case dc s of None \<Rightarrow> [] | Some ch \<Rightarrow> sent ch)"

definition file_frames :: "nat \<Rightarrow> (origin \<times> frame) list \<Rightarrow> frame list" where
  "file_frames k fs = map snd (filter (\<lambda>p. fst p = ByFile k) fs)"

subsection \<open>The chunking the wire format describes\<close>

text \<open>
  The chunks of a buffer as the wire format states them: consecutive slices of \<open>c\<close> bytes,
  the last one shorter when \<open>c\<close> does not divide the size.
\<close>

function chunks_of :: "nat \<Rightarrow> 'a list \<Rightarrow> 'a list list" where
  "chunks_of c bs = (if c = 0 \<or> bs = [] then [] else take c bs # chunks_of c (drop c bs))"
  by pat_completeness auto
termination
  by (relation "measure (\<lambda>(c, bs). length bs)") auto

declare chunks_of.simps [simp del]

subsection \<open>A platform for concrete runs\<close>

text \<open>
  A platform whose JSON functions are a finite table of texts and their values, and whose
  negotiation accepts exactly the descriptions that are objects.
\<close>

definition table_platform :: "(string \<times> jsval) list \<Rightarrow> platform" where
  "table_platform tbl =
     \<lparr>JSON_parse = (\<lambda>d. case map_of tbl d of None \<Rightarrow> Inl SyntaxError | Some v \<Rightarrow> Inr v),
      JSON_stringify = (\<lambda>v. case map_of (map prod.swap tbl) v of None \<Rightarrow> [] | Some d \<Rightarrow> d),
      pc_createOffer = (\<lambda>c. Inr (JObj [(''type'', JStr ''offer'')])),
      pc_createAnswer = (\<lambda>c. Inr (JObj [(''type'', JStr ''answer'')])),
      pc_setLocalDescription = (\<lambda>d c. Inr (c\<lparr>localDescription := Some d\<rparr>)),
      pc_setRemoteDescription =
        (\<lambda>d c. case d of JObj ps \<Rightarrow> Inr (c\<lparr>remoteDescription := Some d\<rparr>) | _ \<Rightarrow> Inl TypeError)\<rparr>"

definition example_info :: FileInfo where
  "example_info =
     \<lparr>fi_name = ''a.bin'', fi_size = 40000, fi_type = ''application/octet-stream''\<rparr>"

definition example_meta_text :: string where
  \<open>example_meta_text =
     ''{"type":"file-meta","payload":{"name":"a.bin","size":40000,"type":"application/octet-stream"}}''\<close>

definition example_end_text :: string where
  \<open>example_end_text = ''{"type":"file-end"}''\<close>

definition example_note_info :: FileInfo where
  "example_note_info = \<lparr>fi_name = ''b.txt'', fi_size = 2, fi_type = ''text/plain''\<rparr>"

definition example_note_meta_text :: string where
  \<open>example_note_meta_text =
     ''{"type":"file-meta","payload":{"name":"b.txt","size":2,"type":"text/plain"}}''\<close>

definition example_platform :: platform where
  "example_platform =
     table_platform
       [(''null'', JNull), (''5'', JNum 5),
        (example_meta_text, FileMetaMessage (FileInfo_js example_info)),
        (example_end_text, FileEndMessage),
        (example_note_meta_text, FileMetaMessage (FileInfo_js example_note_info))]"

definition example_env :: env where
  "example_env = \<lparr>randomUUID = ''4f9c2d1e-0000-4000-8000-000000000001'', now = 1700000000000\<rparr>"

definition example_file :: File where
  "example_file =
     \<lparr>file_name = ''a.bin'', file_type = ''application/octet-stream'',
      file_bytes = replicate 40000 0\<rparr>"

definition example_note :: File where
  "example_note = \<lparr>file_name = ''b.txt'', file_type = ''text/plain'', file_bytes = [104, 105]\<rparr>"

definition open_channel :: RTCDataChannel where
  "open_channel = createDataChannel\<lparr>readyState := DCOpen\<rparr>"

text \<open>The offerer once the platform has opened its channel and fired \<^verbatim>\<open>onopen\<close>.\<close>

definition connected_hook :: hook where
  "connected_hook =
     dc_onopen ((fst (createOffer example_platform initial))\<lparr>dc := Some open_channel\<rparr>)"

text \<open>
  Two overlapping calls of sendFile: the first suspends, the second is made and suspends
  too, then the channel drains twice, and the second runs to its end.
\<close>

definition overlapping_calls :: "(env \<times> sender_event) list" where
  "overlapping_calls =
     [(example_env, SendFile example_file), (example_env, ReaderLoad 0),
      (example_env, SendFile example_note), (example_env, ReaderLoad 1),
      (example_env, BufferedAmountChanged 0), (example_env, BufferedAmountLow),
      (example_env, BufferedAmountChanged 0), (example_env, TimerFired 1)]"

subsection \<open>What a transfer in flight maintains\<close>

definition file_meta_frame :: "platform \<Rightarrow> File \<Rightarrow> frame" where
  "file_meta_frame P file =
     FText (JSON_stringify P (FileMetaMessage (FileInfo_js
       \<lparr>fi_name = file_name file, fi_size = length (file_bytes file),
        fi_type = file_type file\<rparr>)))"

definition file_end_frame :: "platform \<Rightarrow> frame" where
  "file_end_frame P = FText (JSON_stringify P FileEndMessage)"

definition expected_frames :: "platform \<Rightarrow> File \<Rightarrow> frame list" where
  "expected_frames P file =
     file_meta_frame P file # map FBinary (chunks_of CHUNK_SIZE (file_bytes file)) @
       [file_end_frame P]"

text \<open>The frames a transfer has still to send: the chunks from its offset on, and file-end.\<close>

definition remaining_frames :: "platform \<Rightarrow> transfer \<Rightarrow> frame list" where
  "remaining_frames P t =
     (if finished t then []
      else map FBinary (chunks_of CHUNK_SIZE (drop (offset t) (file_bytes (t_file t)))) @
             [file_end_frame P])"

text \<open>A call of sendFile that is over: file-end sent, nothing pending with the platform.\<close>

definition idle :: "transfer \<Rightarrow> bool" where
  "idle t = (finished t \<and> \<not> reader_pending t \<and> \<not> timer_pending t)"

text \<open>
  For call \<open>k\<close>, exactly one of: the read is pending, the timer is pending, its
  continuation is in the slot, the transfer has finished; and the slot holds nothing else.
\<close>

definition one_pending :: "nat \<Rightarrow> RTCDataChannel \<Rightarrow> transfer \<Rightarrow> bool" where
  "one_pending k ch t =
     (length (filter id [reader_pending t, timer_pending t,
        onbufferedamountlow ch = Some (ResumeSendChunk k), finished t]) = 1 \<and>
      (onbufferedamountlow ch = None \<or> onbufferedamountlow ch = Some (ResumeSendChunk k)))"

text \<open>
  The hook and the closure of call \<open>k\<close>, for a file sent when the channel had been given
  the frames \<open>base\<close>: what call \<open>k\<close> has sent since, followed by what it has still to
  send, is the expected sequence.
\<close>

definition transfer_ok ::
  "platform \<Rightarrow> File \<Rightarrow> (origin \<times> frame) list \<Rightarrow> nat \<Rightarrow> hook \<times> transfer \<Rightarrow> bool" where
  "transfer_ok P file base k st =
     (case st of (s, t) \<Rightarrow>
        (case dc s of
           None \<Rightarrow> False
         | Some ch \<Rightarrow>
             readyState ch = DCOpen \<and> t_file t = file \<and> one_pending k ch t \<and>
             (if reader_pending t then offset t = 0 else buffer t = file_bytes file) \<and>
             (onbufferedamountlow ch = None \<or> offset t < length (file_bytes file)) \<and>
             length base \<le> length (sent ch) \<and> take (length base) (sent ch) = base \<and>
             file_frames k (drop (length base) (sent ch)) @ remaining_frames P t =
               expected_frames P file))"

text \<open>The same with the closures of the earlier calls, all of them over.\<close>

definition transfer_inv ::
  "platform \<Rightarrow> File \<Rightarrow> (origin \<times> frame) list \<Rightarrow> nat \<Rightarrow> hook \<times> transfer list \<Rightarrow> bool" where
  "transfer_inv P file base k st =
     (case st of (s, ts) \<Rightarrow>
        length ts = Suc k \<and> list_all idle (take k ts) \<and> transfer_ok P file base k (s, ts ! k))"

text \<open>
  Events after which call \<open>k\<close>, of a file of at most \<open>n\<close> chunks, has finished wherever
  it stood: the channel drains, and the read, the \<^verbatim>\<open>bufferedamountlow\<close> event and the
  timer are delivered.
\<close>

definition timer_rounds :: "env \<Rightarrow> nat \<Rightarrow> nat \<Rightarrow> (env \<times> sender_event) list" where
  "timer_rounds e k n = concat (replicate n [(e, BufferedAmountChanged 0), (e, TimerFired k)])"

definition completion_schedule :: "env \<Rightarrow> nat \<Rightarrow> nat \<Rightarrow> (env \<times> sender_event) list" where
  "completion_schedule e k n =
     [(e, BufferedAmountChanged 0), (e, ReaderLoad k), (e, BufferedAmountChanged 0),
      (e, BufferedAmountLow)] @ timer_rounds e k (Suc n)"

section \<open>Properties\<close>

subsection \<open>Chunking\<close>

lemma div_add_one: "0 < (c::nat) \<Longrightarrow> (m + c) div c = Suc (m div c)"
  by simp

lemma div_mult_add_small: "d < (c::nat) \<Longrightarrow> (c * q + d) div c = q"
  by simp

lemma ceil_div_small: "0 < (n::nat) \<Longrightarrow> n \<le> c \<Longrightarrow> (n + c - 1) div c = 1"
  by (rule Euclidean_Rings.div_nat_eqI) simp_all

lemma ceil_div_step:
  assumes c: "0 < (c::nat)" and n: "c < n"
  shows "(n + c - 1) div c = Suc ((n - c + c - 1) div c)"
proof -
  have "n + c - 1 = (n - c + c - 1) + c" using n c by simp
  then show ?thesis using div_add_one[OF c, of "n - c + c - 1"] by (simp only:)
qed

lemma ceil_div_cases:
  assumes c: "0 < (c::nat)"
  shows "(n + c - 1) div c = (if n mod c = 0 then n div c else Suc (n div c))"
proof -
  let ?q = "n div c" and ?r = "n mod c"
  have n: "n = c * ?q + ?r" by simp
  show ?thesis
  proof (cases "?r = 0")
    case True
    then have "n = c * ?q" using n by simp
    then have "n + c - 1 = c * ?q + (c - 1)" using c by simp
    moreover have "(c * ?q + (c - 1)) div c = ?q" using c by (intro div_mult_add_small) simp
    ultimately have "(n + c - 1) div c = ?q" by (simp only:)
    then show ?thesis using True by simp
  next
    case False
    then have r: "0 < ?r" by simp
    have "n + c - 1 = (c * ?q + ?r) + c - 1" using n by simp
    also have "\<dots> = c * Suc ?q + (?r - 1)" using r by simp
    finally have "n + c - 1 = c * Suc ?q + (?r - 1)" .
    moreover have "(c * Suc ?q + (?r - 1)) div c = Suc ?q"
    proof (rule div_mult_add_small)
      show "?r - 1 < c" using c by (meson less_imp_diff_less mod_less_divisor)
    qed
    ultimately have "(n + c - 1) div c = Suc ?q" by (simp only:)
    then show ?thesis using False by simp
  qed
qed

lemma chunks_of_Nil [simp]: "chunks_of c [] = []"
  by (simp add: chunks_of.simps)

lemma chunks_of_step:
  "0 < c \<Longrightarrow> bs \<noteq> [] \<Longrightarrow> chunks_of c bs = take c bs # chunks_of c (drop c bs)"
  by (subst chunks_of.simps) simp

lemma concat_chunks_of: "0 < c \<Longrightarrow> concat (chunks_of c bs) = bs"
proof (induction c bs rule: chunks_of.induct)
  case (1 c bs)
  show ?case
  proof (cases "bs = []")
    case True
    then show ?thesis by simp
  next
    case False
    with 1 show ?thesis by (simp add: chunks_of_step)
  qed
qed

lemma length_chunks_of: "0 < c \<Longrightarrow> length (chunks_of c bs) = (length bs + c - 1) div c"
proof (induction c bs rule: chunks_of.induct)
  case (1 c bs)
  show ?case
  proof (cases "bs = []")
    case True
    with 1 show ?thesis by simp
  next
    case False
    then have pos: "0 < length bs" by simp
    have IH: "length (chunks_of c (drop c bs)) = (length bs - c + c - 1) div c"
      using 1 False by simp
    have len: "length (chunks_of c bs) = Suc ((length bs - c + c - 1) div c)"
      using IH False 1(2) by (simp add: chunks_of_step)
    show ?thesis
    proof (cases "length bs \<le> c")
      case True
      then have "(length bs - c + c - 1) div c = 0" using 1(2) by simp
      with len ceil_div_small[OF pos True] show ?thesis by simp
    next
      case False
      with len ceil_div_step[OF 1(2), of "length bs"] show ?thesis by simp
    qed
  qed
qed

lemma nth_chunks_of:
  "0 < c \<Longrightarrow> i < length (chunks_of c bs) \<Longrightarrow> chunks_of c bs ! i = take c (drop (i * c) bs)"
proof (induction c bs arbitrary: i rule: chunks_of.induct)
  case (1 c bs)
  show ?case
  proof (cases "bs = []")
    case True
    with 1 show ?thesis by simp
  next
    case False
    show ?thesis
    proof (cases i)
      case 0
      with False 1(2) show ?thesis by (simp add: chunks_of_step)
    next
      case (Suc j)
      with 1(3) False 1(2) have "j < length (chunks_of c (drop c bs))"
        by (simp add: chunks_of_step)
      with 1(1)[of j] False 1(2) have "chunks_of c (drop c bs) ! j = take c (drop (j * c) (drop c bs))"
        by simp
      with Suc False 1(2) show ?thesis by (simp add: chunks_of_step add.commute)
    qed
  qed
qed

lemma length_nth_chunks_of:
  assumes c: "0 < c" and i: "i < length (chunks_of c bs)"
  shows "length (chunks_of c bs ! i) =
           (if Suc i < length (chunks_of c bs) then c
            else if length bs mod c = 0 then c else length bs mod c)"
proof -
  let ?S = "length bs"
  let ?q = "?S div c" and ?r = "?S mod c"
  have n: "length (chunks_of c bs) = (if ?r = 0 then ?q else Suc ?q)"
    using length_chunks_of[OF c, of bs] ceil_div_cases[OF c, of ?S] by simp
  have len: "length (chunks_of c bs ! i) = min c (?S - i * c)"
    using nth_chunks_of[OF c i] by (simp add: min.commute)
  have S: "?S = c * ?q + ?r" by simp
  show ?thesis
  proof (cases "Suc i < length (chunks_of c bs)")
    case True
    then have "Suc i \<le> ?q" using n by (simp split: if_splits)
    then have "Suc i * c \<le> ?q * c" by (rule mult_le_mono1)
    also have "\<dots> \<le> ?S" by simp
    finally have "c \<le> ?S - i * c" by simp
    with len True show ?thesis by simp
  next
    case False
    with i have last: "Suc i = length (chunks_of c bs)" by simp
    show ?thesis
    proof (cases "?r = 0")
      case True
      with last n have "?q = Suc i" by simp
      with S True have "?S = c * Suc i" by simp
      then have "?S - i * c = c" by (simp add: mult.commute)
      with len False True show ?thesis by simp
    next
      case nz: False
      with last n have "?q = i" by simp
      with S have "?S - i * c = ?r" by (metis add_diff_cancel_left' mult.commute)
      moreover have "?r < c" using c by simp
      ultimately show ?thesis using len False nz by simp
    qed
  qed
qed

lemma CHUNK_SIZE_pos: "0 < CHUNK_SIZE"
  by (simp add: CHUNK_SIZE_def)

lemma chunks_of_drop_done: "length bs \<le> n \<Longrightarrow> chunks_of c (drop n bs) = []"
  by simp

lemma chunks_of_drop_next:
  assumes "0 < c" and "n < length bs"
  shows "chunks_of c (drop n bs) =
           take c (drop n bs) # chunks_of c (drop (n + length (take c (drop n bs))) bs)"
proof -
  have ne: "drop n bs \<noteq> []" using assms(2) by simp
  have "drop (n + length (take c (drop n bs))) bs = drop c (drop n bs)"
  proof (cases "c \<le> length bs - n")
    case True
    then show ?thesis by (simp add: add.commute min_absorb2)
  next
    case False
    then show ?thesis by simp
  qed
  with chunks_of_step[OF assms(1) ne] show ?thesis by simp
qed

subsection \<open>One transfer on the channel\<close>

lemma length_chunks_of_drop_le:
  "0 < c \<Longrightarrow> length (chunks_of c (drop n bs)) \<le> length (chunks_of c bs)"
  by (simp add: length_chunks_of div_le_mono)

lemma file_frames_snoc [simp]:
  "file_frames k (fs @ [(who, f)]) = (if who = ByFile k then file_frames k fs @ [f] else file_frames k fs)"
  by (simp add: file_frames_def)

lemma file_frames_Nil [simp]: "file_frames k [] = []"
  by (simp add: file_frames_def)

lemma file_frames_Cons [simp]:
  "file_frames k ((who, f) # fs) = (if who = ByFile k then f # file_frames k fs else file_frames k fs)"
  by (simp add: file_frames_def)

lemma transfer_ok_dc:
  "dc s' = dc s \<Longrightarrow> transfer_ok P file base k (s', t) = transfer_ok P file base k (s, t)"
  by (simp add: transfer_ok_def)

lemma handleDataChannelMessage_dc:
  "\<exists>s'. handleDataChannelMessage P e s d = Inr s' \<and> dc s' = dc s"
  by (cases d)
    (auto simp: handleDataChannelMessage_def handle_try_def handle_catch_def bind_err_def
      split: sum.splits option.splits jsval.splits if_splits)

lemma sendFile_ok:
  assumes "dc s = Some ch" and "readyState ch = DCOpen" and "onbufferedamountlow ch = None"
  shows "\<exists>s1 t1. sendFile P k file s = Inr (s1, Some t1) \<and>
           transfer_ok P file (sent ch) k (s1, t1) \<and> reader_pending t1"
  using assms
  by (simp add: sendFile_def dc_send_def bind_err_def transfer_ok_def one_pending_def
      remaining_frames_def expected_frames_def file_meta_frame_def Let_def)

lemma sendText_ok:
  assumes "transfer_ok P file base k (s, t)"
  shows "\<exists>s'. sendText P e text s = Inr s' \<and> transfer_ok P file base k (s', t)"
proof -
  from assms obtain ch where ch: "dc s = Some ch"
    by (auto simp: transfer_ok_def split: option.splits)
  with assms show ?thesis
    by (auto simp: transfer_ok_def sendText_def dc_send_def bind_err_def one_pending_def)
qed

lemma sendChunk_ok:
  assumes "dc s = Some ch" and "readyState ch = DCOpen" and "t_file t = file"
    and "buffer t = file_bytes file" and "\<not> reader_pending t" and "\<not> timer_pending t"
    and "onbufferedamountlow ch = None" and "\<not> finished t"
    and "length base \<le> length (sent ch)" and "take (length base) (sent ch) = base"
    and "file_frames k (drop (length base) (sent ch)) @ remaining_frames P t =
           expected_frames P file"
  shows "\<exists>s' t'. sendChunk P e k (s, t) = Inr (s', t') \<and> transfer_ok P file base k (s', t') \<and>
           (bufferedAmount ch \<le> bufferedAmountLowThreshold ch \<longrightarrow>
              (if chunks_of CHUNK_SIZE (drop (offset t) (file_bytes file)) = [] then finished t'
               else \<not> finished t' \<and> timer_pending t' \<and>
                    Suc (length (chunks_of CHUNK_SIZE (drop (offset t') (file_bytes file)))) =
                      length (chunks_of CHUNK_SIZE (drop (offset t) (file_bytes file)))))"
proof (cases "length (buffer t) \<le> offset t")
  case True
  then have e: "chunks_of CHUNK_SIZE (drop (offset t) (file_bytes file)) = []"
    using assms(4) by simp
  with assms True show ?thesis
    by (simp add: sendChunk_def dc_send_def bind_err_def transfer_ok_def one_pending_def
        remaining_frames_def file_end_frame_def)
next
  case False
  then have lt: "offset t < length (file_bytes file)" using assms(4) by simp
  note nxt = chunks_of_drop_next[OF CHUNK_SIZE_pos lt]
  have ne: "chunks_of CHUNK_SIZE (drop (offset t) (file_bytes file)) \<noteq> []"
    using nxt by simp
  show ?thesis
  proof (cases "bufferedAmountLowThreshold ch < bufferedAmount ch")
    case True
    with assms False lt show ?thesis
      by (simp add: sendChunk_def transfer_ok_def one_pending_def remaining_frames_def)
  next
    case nb: False
    let ?chunk = "take CHUNK_SIZE (drop (offset t) (file_bytes file))"
    have fr: "file_frames k (drop (length base) (sent ch)) @ FBinary ?chunk #
            map FBinary (chunks_of CHUNK_SIZE
              (drop (offset t + length ?chunk) (file_bytes file))) @ [file_end_frame P] =
            expected_frames P file"
      using assms(11) assms(8) assms(3) nxt by (simp add: remaining_frames_def)
    have cnt: "Suc (length (chunks_of CHUNK_SIZE (drop (offset t + length ?chunk) (file_bytes file)))) =
                 length (chunks_of CHUNK_SIZE (drop (offset t) (file_bytes file)))"
      using arg_cong[where f = length, OF nxt] by simp
    from assms False nb fr cnt ne show ?thesis
      by (simp add: sendChunk_def dc_send_def bind_err_def transfer_ok_def one_pending_def
          remaining_frames_def Let_def)
  qed
qed

lemma transfer_ok_fields:
  assumes "transfer_ok P file base k (s, t)" and "dc s = Some ch"
  shows "readyState ch = DCOpen" "t_file t = file" "one_pending k ch t"
    "if reader_pending t then offset t = 0 else buffer t = file_bytes file"
    "onbufferedamountlow ch = None \<or> offset t < length (file_bytes file)"
    "length base \<le> length (sent ch)" "take (length base) (sent ch) = base"
    "file_frames k (drop (length base) (sent ch)) @ remaining_frames P t = expected_frames P file"
  using assms by (simp_all add: transfer_ok_def)

lemma transfer_ok_channel:
  assumes "transfer_ok P file base k (s, t)"
  obtains ch where "dc s = Some ch"
  using assms by (auto simp: transfer_ok_def split: option.splits)

text \<open>The three callbacks of call \<open>k\<close>, on the hook and its closure.\<close>

lemma reader_callback_ok:
  assumes ok: "transfer_ok P file base k (s, t)" and ch: "dc s = Some ch"
    and rp: "reader_pending t"
  shows "\<exists>s' t'. sendChunk P e k
            (s, t\<lparr>reader_pending := False, buffer := file_bytes (t_file t), offset := 0\<rparr>) =
            Inr (s', t') \<and> transfer_ok P file base k (s', t') \<and> \<not> reader_pending t' \<and>
           (bufferedAmount ch \<le> bufferedAmountLowThreshold ch \<longrightarrow>
              timer_pending t' \<or> finished t')"
proof -
  note f = transfer_ok_fields[OF ok ch]
  from rp f(3) have np: "\<not> timer_pending t" "onbufferedamountlow ch = None" "\<not> finished t"
    by (auto simp: one_pending_def split: if_splits)
  let ?t = "t\<lparr>reader_pending := False, buffer := file_bytes (t_file t), offset := 0\<rparr>"
  have "\<exists>s' t'. sendChunk P e k (s, ?t) = Inr (s', t') \<and> transfer_ok P file base k (s', t') \<and>
           (bufferedAmount ch \<le> bufferedAmountLowThreshold ch \<longrightarrow>
              (if chunks_of CHUNK_SIZE (drop (offset ?t) (file_bytes file)) = [] then finished t'
               else \<not> finished t' \<and> timer_pending t' \<and>
                    Suc (length (chunks_of CHUNK_SIZE (drop (offset t') (file_bytes file)))) =
                      length (chunks_of CHUNK_SIZE (drop (offset ?t) (file_bytes file)))))"
    using ch f rp np by (intro sendChunk_ok[where ch = ch]) (simp_all add: remaining_frames_def)
  then obtain s' t' where r: "sendChunk P e k (s, ?t) = Inr (s', t')"
    "transfer_ok P file base k (s', t')"
    "bufferedAmount ch \<le> bufferedAmountLowThreshold ch \<longrightarrow>
       (if chunks_of CHUNK_SIZE (drop (offset ?t) (file_bytes file)) = [] then finished t'
        else \<not> finished t' \<and> timer_pending t' \<and>
             Suc (length (chunks_of CHUNK_SIZE (drop (offset t') (file_bytes file)))) =
               length (chunks_of CHUNK_SIZE (drop (offset ?t) (file_bytes file))))"
    by blast
  from r(1) ch have "\<not> reader_pending t'"
    by (auto simp: sendChunk_def dc_send_def bind_err_def Let_def split: if_splits)
  with r show ?thesis by (auto split: if_splits)
qed

lemma timer_callback_ok:
  assumes ok: "transfer_ok P file base k (s, t)" and ch: "dc s = Some ch"
    and tp: "timer_pending t"
  shows "\<exists>s' t'. sendChunk P e k (s, t\<lparr>timer_pending := False\<rparr>) = Inr (s', t') \<and>
           transfer_ok P file base k (s', t') \<and> \<not> reader_pending t' \<and>
           (bufferedAmount ch \<le> bufferedAmountLowThreshold ch \<longrightarrow>
              (if chunks_of CHUNK_SIZE (drop (offset t) (file_bytes file)) = [] then finished t'
               else \<not> finished t' \<and> timer_pending t' \<and>
                    Suc (length (chunks_of CHUNK_SIZE (drop (offset t') (file_bytes file)))) =
                      length (chunks_of CHUNK_SIZE (drop (offset t) (file_bytes file)))))"
proof -
  note f = transfer_ok_fields[OF ok ch]
  from tp f(3) have np: "\<not> reader_pending t" "onbufferedamountlow ch = None" "\<not> finished t"
    by (auto simp: one_pending_def split: if_splits)
  let ?t = "t\<lparr>timer_pending := False\<rparr>"
  have "\<exists>s' t'. sendChunk P e k (s, ?t) = Inr (s', t') \<and> transfer_ok P file base k (s', t') \<and>
           (bufferedAmount ch \<le> bufferedAmountLowThreshold ch \<longrightarrow>
              (if chunks_of CHUNK_SIZE (drop (offset ?t) (file_bytes file)) = [] then finished t'
               else \<not> finished t' \<and> timer_pending t' \<and>
                    Suc (length (chunks_of CHUNK_SIZE (drop (offset t') (file_bytes file)))) =
                      length (chunks_of CHUNK_SIZE (drop (offset ?t) (file_bytes file)))))"
    using ch f tp np by (intro sendChunk_ok[where ch = ch]) (simp_all add: remaining_frames_def)
  then obtain s' t' where r: "sendChunk P e k (s, ?t) = Inr (s', t')"
    "transfer_ok P file base k (s', t')"
    "bufferedAmount ch \<le> bufferedAmountLowThreshold ch \<longrightarrow>
       (if chunks_of CHUNK_SIZE (drop (offset ?t) (file_bytes file)) = [] then finished t'
        else \<not> finished t' \<and> timer_pending t' \<and>
             Suc (length (chunks_of CHUNK_SIZE (drop (offset t') (file_bytes file)))) =
               length (chunks_of CHUNK_SIZE (drop (offset ?t) (file_bytes file))))"
    by blast
  from r(1) ch np(1) have "\<not> reader_pending t'"
    by (auto simp: sendChunk_def dc_send_def bind_err_def Let_def split: if_splits)
  with r show ?thesis by simp
qed

lemma low_callback_ok:
  assumes ok: "transfer_ok P file base k (s, t)" and ch: "dc s = Some ch"
    and slot: "onbufferedamountlow ch = Some (ResumeSendChunk k)"
  shows "\<exists>s' t'. sendChunk P e k (s\<lparr>dc := Some (ch\<lparr>onbufferedamountlow := None\<rparr>)\<rparr>, t) =
            Inr (s', t') \<and> transfer_ok P file base k (s', t') \<and> \<not> reader_pending t' \<and>
           (bufferedAmount ch \<le> bufferedAmountLowThreshold ch \<longrightarrow> timer_pending t')"
proof -
  note f = transfer_ok_fields[OF ok ch]
  from slot f(3) have np: "\<not> reader_pending t" "\<not> timer_pending t" "\<not> finished t"
    by (auto simp: one_pending_def split: if_splits)
  from slot f(5) have lt: "offset t < length (file_bytes file)" by simp
  then have ne: "chunks_of CHUNK_SIZE (drop (offset t) (file_bytes file)) \<noteq> []"
    using chunks_of_drop_next[OF CHUNK_SIZE_pos lt] by simp
  let ?ch = "ch\<lparr>onbufferedamountlow := None\<rparr>"
  let ?s = "s\<lparr>dc := Some ?ch\<rparr>"
  have "\<exists>s' t'. sendChunk P e k (?s, t) = Inr (s', t') \<and> transfer_ok P file base k (s', t') \<and>
           (bufferedAmount ?ch \<le> bufferedAmountLowThreshold ?ch \<longrightarrow>
              (if chunks_of CHUNK_SIZE (drop (offset t) (file_bytes file)) = [] then finished t'
               else \<not> finished t' \<and> timer_pending t' \<and>
                    Suc (length (chunks_of CHUNK_SIZE (drop (offset t') (file_bytes file)))) =
                      length (chunks_of CHUNK_SIZE (drop (offset t) (file_bytes file)))))"
    using f np by (intro sendChunk_ok[where ch = ?ch]) simp_all
  then obtain s' t' where r: "sendChunk P e k (?s, t) = Inr (s', t')"
    "transfer_ok P file base k (s', t')"
    "bufferedAmount ch \<le> bufferedAmountLowThreshold ch \<longrightarrow>
       (if chunks_of CHUNK_SIZE (drop (offset t) (file_bytes file)) = [] then finished t'
        else \<not> finished t' \<and> timer_pending t' \<and>
             Suc (length (chunks_of CHUNK_SIZE (drop (offset t') (file_bytes file)))) =
               length (chunks_of CHUNK_SIZE (drop (offset t) (file_bytes file))))"
    by auto
  from r(1) np(1) have "\<not> reader_pending t'"
    by (auto simp: sendChunk_def dc_send_def bind_err_def Let_def split: if_splits)
  with r ne show ?thesis by simp
qed

lemma transfer_inv_parts:
  assumes "transfer_inv P file base k (s, ts)"
  shows "length ts = Suc k" "list_all idle (take k ts)" "transfer_ok P file base k (s, ts ! k)"
  using assms by (simp_all add: transfer_inv_def)

lemma transfer_inv_update:
  assumes "transfer_inv P file base k (s, ts)" and "transfer_ok P file base k (s', t')"
  shows "transfer_inv P file base k (s', ts[k := t'])"
  using assms by (simp add: transfer_inv_def)

lemma earlier_call_idle:
  assumes "transfer_inv P file base k (s, ts)" and "j < length ts" and "j \<noteq> k"
  shows "\<not> reader_pending (ts ! j)" "\<not> timer_pending (ts ! j)"
proof -
  from assms have jk: "j < k" and len: "length ts = Suc k" by (simp_all add: transfer_inv_def)
  from assms(1) have "list_all idle (take k ts)" by (simp add: transfer_inv_def)
  then have "idle (take k ts ! j)" using jk len by (simp add: list_all_length)
  then have "idle (ts ! j)" using jk by simp
  then show "\<not> reader_pending (ts ! j)" "\<not> timer_pending (ts ! j)" by (simp_all add: idle_def)
qed

lemma sender_step_inv:
  assumes inv: "transfer_inv P file base k st" and ev: "\<not> is_SendFile ev"
  shows "\<exists>st'. sender_step P e ev st = Inr st' \<and> transfer_inv P file base k st' \<and>
           (finished (snd st ! k) \<longrightarrow> finished (snd st' ! k))"
proof -
  obtain s ts where st: "st = (s, ts)" by (cases st)
  note p = transfer_inv_parts[OF inv[unfolded st]]
  from p(3) obtain ch where ch: "dc s = Some ch" by (rule transfer_ok_channel)
  note f = transfer_ok_fields[OF p(3) ch]
  have kl: "k < length ts" using p(1) by simp
  note upd = transfer_inv_update[OF inv[unfolded st]]
  show ?thesis
  proof (cases ev)
    case (SendFile x)
    with ev show ?thesis by simp
  next
    case (SendText msg)
    from sendText_ok[OF p(3), of e msg] obtain s' where
      "sendText P e msg s = Inr s'" "transfer_ok P file base k (s', ts ! k)" by blast
    then show ?thesis using p by (simp add: st SendText sender_step_def bind_err_def transfer_inv_def)
  next
    case (Inbound d)
    from handleDataChannelMessage_dc[of P e s d] obtain s' where
      h: "handleDataChannelMessage P e s d = Inr s'" "dc s' = dc s" by blast
    from transfer_ok_dc[OF h(2), of P "file" base k "ts ! k"] p have
      "transfer_inv P file base k (s', ts)" by (simp add: transfer_inv_def)
    then show ?thesis using h by (simp add: st Inbound sender_step_def bind_err_def)
  next
    case (ReaderLoad j)
    show ?thesis
    proof (cases "j < length ts \<and> reader_pending (ts ! j)")
      case True
      with earlier_call_idle[OF inv[unfolded st], of j] have jk: "j = k" by auto
      from True jk f(3) have nf: "\<not> finished (ts ! k)"
        by (auto simp: one_pending_def split: if_splits)
      from reader_callback_ok[OF p(3) ch, of e] True jk obtain s' t' where
        r: "sendChunk P e k (s, (ts ! k)\<lparr>reader_pending := False,
              buffer := file_bytes (t_file (ts ! k)), offset := 0\<rparr>) = Inr (s', t')"
           "transfer_ok P file base k (s', t')" by auto
      from upd[OF r(2)] r(1) True jk nf show ?thesis
        by (simp add: st ReaderLoad sender_step_def run_sendChunk_def bind_err_def)
    next
      case False
      then show ?thesis using inv by (auto simp add: st ReaderLoad sender_step_def)
    qed
  next
    case (TimerFired j)
    show ?thesis
    proof (cases "j < length ts \<and> timer_pending (ts ! j)")
      case True
      with earlier_call_idle[OF inv[unfolded st], of j] have jk: "j = k" by auto
      from True jk f(3) have nf: "\<not> finished (ts ! k)"
        by (auto simp: one_pending_def split: if_splits)
      from timer_callback_ok[OF p(3) ch, of e] True jk obtain s' t' where
        r: "sendChunk P e k (s, (ts ! k)\<lparr>timer_pending := False\<rparr>) = Inr (s', t')"
           "transfer_ok P file base k (s', t')" by auto
      from upd[OF r(2)] r(1) True jk nf show ?thesis
        by (simp add: st TimerFired sender_step_def run_sendChunk_def bind_err_def)
    next
      case False
      then show ?thesis using inv by (auto simp add: st TimerFired sender_step_def)
    qed
  next
    case BufferedAmountLow
    show ?thesis
    proof (cases "onbufferedamountlow ch")
      case None
      then show ?thesis using inv ch by (simp add: st BufferedAmountLow sender_step_def)
    next
      case (Some c)
      with f(3) have slot: "onbufferedamountlow ch = Some (ResumeSendChunk k)"
        by (simp add: one_pending_def)
      from slot f(3) have nf: "\<not> finished (ts ! k)"
        by (auto simp: one_pending_def split: if_splits)
      from low_callback_ok[OF p(3) ch slot, of e] obtain s' t' where
        r: "sendChunk P e k (s\<lparr>dc := Some (ch\<lparr>onbufferedamountlow := None\<rparr>)\<rparr>, ts ! k) =
              Inr (s', t')" "transfer_ok P file base k (s', t')" by auto
      from upd[OF r(2)] r(1) ch slot kl nf show ?thesis
        by (simp add: st BufferedAmountLow sender_step_def run_sendChunk_def bind_err_def)
    qed
  next
    case (BufferedAmountChanged n)
    have "transfer_ok P file base k (s\<lparr>dc := Some (ch\<lparr>bufferedAmount := n\<rparr>)\<rparr>, ts ! k)"
      using f by (simp add: transfer_ok_def one_pending_def)
    then show ?thesis using ch p
      by (simp add: st BufferedAmountChanged sender_step_def transfer_inv_def)
  qed
qed

lemma sender_run_inv:
  assumes "transfer_inv P file base k st" and "\<forall>x \<in> set evs. \<not> is_SendFile (snd x)"
  shows "\<exists>st'. sender_run P evs st = Inr st' \<and> transfer_inv P file base k st' \<and>
           (finished (snd st ! k) \<longrightarrow> finished (snd st' ! k))"
  using assms
proof (induction evs arbitrary: st)
  case Nil
  then show ?case by simp
next
  case (Cons a evs)
  obtain e ev where a: "a = (e, ev)" by (cases a)
  from Cons.prems(2) a have ev: "\<not> is_SendFile ev" by simp
  from sender_step_inv[OF Cons.prems(1) ev, of e] obtain st1
    where st1: "sender_step P e ev st = Inr st1" "transfer_inv P file base k st1"
      "finished (snd st ! k) \<longrightarrow> finished (snd st1 ! k)" by blast
  from Cons.IH[OF st1(2)] Cons.prems(2) obtain st' where
    "sender_run P evs st1 = Inr st'" "transfer_inv P file base k st'"
    "finished (snd st1 ! k) \<longrightarrow> finished (snd st' ! k)" by auto
  with st1 show ?case by (auto simp add: a bind_err_def)
qed

lemma sender_run_append:
  "sender_run P (xs @ ys) st = bind_err (sender_run P xs st) (sender_run P ys)"
  by (induction xs arbitrary: st) (auto simp: bind_err_def split: sum.splits)

lemma timer_rounds_no_SendFile: "\<forall>x \<in> set (timer_rounds e k n). \<not> is_SendFile (snd x)"
  by (auto simp: timer_rounds_def)

lemma timer_rounds_Suc:
  "timer_rounds e k (Suc n) =
     [(e, BufferedAmountChanged 0), (e, TimerFired k)] @ timer_rounds e k n"
  by (simp add: timer_rounds_def)

lemma drained_ok:
  assumes "transfer_inv P file base k (s, ts)" and "dc s = Some ch"
  shows "sender_step P e (BufferedAmountChanged 0) (s, ts) =
           Inr (s\<lparr>dc := Some (ch\<lparr>bufferedAmount := 0\<rparr>)\<rparr>, ts)"
    and "transfer_inv P file base k (s\<lparr>dc := Some (ch\<lparr>bufferedAmount := 0\<rparr>)\<rparr>, ts)"
  using assms by (simp_all add: sender_step_def transfer_inv_def transfer_ok_def one_pending_def)

lemma unblock_reader:
  assumes inv: "transfer_inv P file base k st"
  shows "\<exists>st'. sender_run P [(e, BufferedAmountChanged 0), (e, ReaderLoad k)] st = Inr st' \<and>
           transfer_inv P file base k st' \<and> \<not> reader_pending (snd st' ! k)"
proof -
  obtain s ts where st: "st = (s, ts)" by (cases st)
  note p = transfer_inv_parts[OF inv[unfolded st]]
  from p(3) obtain ch where ch: "dc s = Some ch" by (rule transfer_ok_channel)
  let ?ch = "ch\<lparr>bufferedAmount := 0\<rparr>"
  let ?s = "s\<lparr>dc := Some ?ch\<rparr>"
  note d = drained_ok(1)[OF inv[unfolded st] ch, of e] drained_ok(2)[OF inv[unfolded st] ch]
  note q = transfer_inv_parts[OF d(2)]
  show ?thesis
  proof (cases "reader_pending (ts ! k)")
    case True
    from reader_callback_ok[OF q(3) _ True, of ?ch e] obtain s' t' where
      r: "sendChunk P e k (?s, (ts ! k)\<lparr>reader_pending := False,
            buffer := file_bytes (t_file (ts ! k)), offset := 0\<rparr>) = Inr (s', t')"
         "transfer_ok P file base k (s', t')" "\<not> reader_pending t'" by auto
    from transfer_inv_update[OF d(2) r(2)] r(1,3) True p(1) d(1) show ?thesis
      by (simp add: st sender_step_def run_sendChunk_def bind_err_def)
  next
    case False
    with d show ?thesis by (simp add: st sender_step_def bind_err_def)
  qed
qed

lemma unblock_slot:
  assumes inv: "transfer_inv P file base k st" and nr: "\<not> reader_pending (snd st ! k)"
  shows "\<exists>st'. sender_run P [(e, BufferedAmountChanged 0), (e, BufferedAmountLow)] st = Inr st' \<and>
           transfer_inv P file base k st' \<and>
           (timer_pending (snd st' ! k) \<or> finished (snd st' ! k))"
proof -
  obtain s ts where st: "st = (s, ts)" by (cases st)
  note p = transfer_inv_parts[OF inv[unfolded st]]
  from p(3) obtain ch where ch: "dc s = Some ch" by (rule transfer_ok_channel)
  let ?ch = "ch\<lparr>bufferedAmount := 0\<rparr>"
  let ?s = "s\<lparr>dc := Some ?ch\<rparr>"
  note d = drained_ok(1)[OF inv[unfolded st] ch, of e] drained_ok(2)[OF inv[unfolded st] ch]
  note q = transfer_inv_parts[OF d(2)]
  have chq: "dc ?s = Some ?ch" by simp
  note f = transfer_ok_fields[OF q(3) chq]
  show ?thesis
  proof (cases "onbufferedamountlow ch")
    case None
    with f(3) nr st have "timer_pending (ts ! k) \<or> finished (ts ! k)"
      by (auto simp: one_pending_def split: if_splits)
    with d None show ?thesis by (simp add: st sender_step_def bind_err_def)
  next
    case (Some c)
    with f(3) have slot: "onbufferedamountlow ?ch = Some (ResumeSendChunk k)"
      by (simp add: one_pending_def)
    from low_callback_ok[OF q(3) chq slot, of e] obtain s' t' where
      r: "sendChunk P e k (?s\<lparr>dc := Some (?ch\<lparr>onbufferedamountlow := None\<rparr>)\<rparr>, ts ! k) =
            Inr (s', t')" "transfer_ok P file base k (s', t')" "timer_pending t'" by auto
    from transfer_inv_update[OF d(2) r(2)] r(1,3) slot p(1) d(1) show ?thesis
      by (simp add: st sender_step_def run_sendChunk_def bind_err_def)
  qed
qed

lemma timer_round:
  assumes inv: "transfer_inv P file base k (s, ts)" and tp: "timer_pending (ts ! k)"
  shows "\<exists>s' ts'. sender_run P [(e, BufferedAmountChanged 0), (e, TimerFired k)] (s, ts) =
             Inr (s', ts') \<and> transfer_inv P file base k (s', ts') \<and>
           (finished (ts' ! k) \<or>
            timer_pending (ts' ! k) \<and>
            Suc (length (chunks_of CHUNK_SIZE (drop (offset (ts' ! k)) (file_bytes file)))) =
              length (chunks_of CHUNK_SIZE (drop (offset (ts ! k)) (file_bytes file))))"
proof -
  note p = transfer_inv_parts[OF inv]
  from p(3) obtain ch where ch: "dc s = Some ch" by (rule transfer_ok_channel)
  let ?ch = "ch\<lparr>bufferedAmount := 0\<rparr>"
  let ?s = "s\<lparr>dc := Some ?ch\<rparr>"
  note d = drained_ok(1)[OF inv ch, of e] drained_ok(2)[OF inv ch]
  note q = transfer_inv_parts[OF d(2)]
  from timer_callback_ok[OF q(3) _ tp, of ?ch e] obtain s' t' where
    r: "sendChunk P e k (?s, (ts ! k)\<lparr>timer_pending := False\<rparr>) = Inr (s', t')"
       "transfer_ok P file base k (s', t')"
       "if chunks_of CHUNK_SIZE (drop (offset (ts ! k)) (file_bytes file)) = [] then finished t'
        else \<not> finished t' \<and> timer_pending t' \<and>
             Suc (length (chunks_of CHUNK_SIZE (drop (offset t') (file_bytes file)))) =
               length (chunks_of CHUNK_SIZE (drop (offset (ts ! k)) (file_bytes file)))"
    by auto
  have run: "sender_run P [(e, BufferedAmountChanged 0), (e, TimerFired k)] (s, ts) =
               Inr (s', ts[k := t'])"
    using d(1) r(1) tp p(1) by (simp add: sender_step_def run_sendChunk_def bind_err_def)
  from transfer_inv_update[OF d(2) r(2)] r(3) p(1) run show ?thesis
    by (auto split: if_splits)
qed

lemma timer_rounds_finish:
  assumes "transfer_inv P file base k (s, ts)"
    and "timer_pending (ts ! k) \<or> finished (ts ! k)"
    and "length (chunks_of CHUNK_SIZE (drop (offset (ts ! k)) (file_bytes file))) \<le> j"
  shows "\<exists>s' ts'. sender_run P (timer_rounds e k (Suc j)) (s, ts) = Inr (s', ts') \<and>
           transfer_inv P file base k (s', ts') \<and> finished (ts' ! k)"
  using assms
proof (induction j arbitrary: s ts)
  case 0
  show ?case
  proof (cases "finished (ts ! k)")
    case True
    from sender_run_inv[OF 0(1) timer_rounds_no_SendFile[of e k "Suc 0"]] True
    show ?thesis by auto
  next
    case False
    with 0(2) have tp: "timer_pending (ts ! k)" by simp
    from timer_round[OF 0(1) tp, of e] 0(3) show ?thesis
      by (auto simp: timer_rounds_def)
  qed
next
  case (Suc j)
  show ?case
  proof (cases "finished (ts ! k)")
    case True
    from sender_run_inv[OF Suc.prems(1) timer_rounds_no_SendFile[of e k "Suc (Suc j)"]] True
    show ?thesis by auto
  next
    case False
    with Suc.prems(2) have tp: "timer_pending (ts ! k)" by simp
    from timer_round[OF Suc.prems(1) tp, of e] obtain s1 ts1 where
      r: "sender_run P [(e, BufferedAmountChanged 0), (e, TimerFired k)] (s, ts) = Inr (s1, ts1)"
         "transfer_inv P file base k (s1, ts1)"
         "finished (ts1 ! k) \<or>
            timer_pending (ts1 ! k) \<and>
            Suc (length (chunks_of CHUNK_SIZE (drop (offset (ts1 ! k)) (file_bytes file)))) =
              length (chunks_of CHUNK_SIZE (drop (offset (ts ! k)) (file_bytes file)))"
      by blast
    have "\<exists>s' ts'. sender_run P (timer_rounds e k (Suc j)) (s1, ts1) = Inr (s', ts') \<and>
           transfer_inv P file base k (s', ts') \<and> finished (ts' ! k)"
    proof (cases "finished (ts1 ! k)")
      case True
      from sender_run_inv[OF r(2) timer_rounds_no_SendFile[of e k "Suc j"]] True
      show ?thesis by auto
    next
      case False
      with r(3) Suc.prems(3) have "timer_pending (ts1 ! k) \<or> finished (ts1 ! k)"
        "length (chunks_of CHUNK_SIZE (drop (offset (ts1 ! k)) (file_bytes file))) \<le> j"
        by auto
      from Suc.IH[OF r(2) this] show ?thesis .
    qed
    then show ?thesis
      using r(1) by (subst timer_rounds_Suc) (simp only: sender_run_append bind_err_def sum.case)
  qed
qed

lemma completion_schedule_no_SendFile:
  "\<forall>x \<in> set (completion_schedule e k n). \<not> is_SendFile (snd x)"
  by (auto simp: completion_schedule_def timer_rounds_def)

lemma completion_schedule_finishes:
  assumes inv: "transfer_inv P file base k st"
    and n: "length (chunks_of CHUNK_SIZE (file_bytes file)) \<le> n"
  shows "\<exists>s' ts'. sender_run P (completion_schedule e k n) st = Inr (s', ts') \<and>
           transfer_inv P file base k (s', ts') \<and> finished (ts' ! k)"
proof -
  from unblock_reader[OF inv, of e] obtain st1 where
    a: "sender_run P [(e, BufferedAmountChanged 0), (e, ReaderLoad k)] st = Inr st1"
       "transfer_inv P file base k st1" "\<not> reader_pending (snd st1 ! k)" by blast
  from unblock_slot[OF a(2,3), of e] obtain s2 ts2 where
    b: "sender_run P [(e, BufferedAmountChanged 0), (e, BufferedAmountLow)] st1 = Inr (s2, ts2)"
       "transfer_inv P file base k (s2, ts2)" "timer_pending (ts2 ! k) \<or> finished (ts2 ! k)"
    by auto
  have "length (chunks_of CHUNK_SIZE (drop (offset (ts2 ! k)) (file_bytes file))) \<le> n"
    using length_chunks_of_drop_le[OF CHUNK_SIZE_pos, of "offset (ts2 ! k)" "file_bytes file"] n
    by simp
  from timer_rounds_finish[OF b(2,3) this, of e] obtain s' ts' where
    c: "sender_run P (timer_rounds e k (Suc n)) (s2, ts2) = Inr (s', ts')"
       "transfer_inv P file base k (s', ts')" "finished (ts' ! k)" by blast
  have split: "completion_schedule e k n =
      [(e, BufferedAmountChanged 0), (e, ReaderLoad k)] @
      [(e, BufferedAmountChanged 0), (e, BufferedAmountLow)] @ timer_rounds e k (Suc n)"
    by (simp add: completion_schedule_def)
  have "sender_run P (completion_schedule e k n) st = Inr (s', ts')"
    unfolding split using a(1) b(1) c(1)
    by (simp only: sender_run_append bind_err_def sum.case)
  with c show ?thesis by blast
qed

lemma frames_of_call:
  assumes "transfer_inv P file base k (s, ts)"
  shows "take (length base) (frames_sent s) = base"
    and "prefix (file_frames k (drop (length base) (frames_sent s))) (expected_frames P file)"
    and "finished (ts ! k) \<longrightarrow>
           file_frames k (drop (length base) (frames_sent s)) = expected_frames P file"
proof -
  note p = transfer_inv_parts[OF assms]
  from p(3) obtain ch where ch: "dc s = Some ch" by (rule transfer_ok_channel)
  note f = transfer_ok_fields[OF p(3) ch]
  show "take (length base) (frames_sent s) = base" using f(7) ch by (simp add: frames_sent_def)
  show "prefix (file_frames k (drop (length base) (frames_sent s))) (expected_frames P file)"
    using f(8) ch by (metis frames_sent_def option.simps(5) prefixI)
  show "finished (ts ! k) \<longrightarrow>
           file_frames k (drop (length base) (frames_sent s)) = expected_frames P file"
    using f(8) ch by (auto simp: frames_sent_def remaining_frames_def)
qed

lemma sendFile_step_inv:
  assumes "dc s = Some ch" and "readyState ch = DCOpen" and "onbufferedamountlow ch = None"
    and "list_all idle ts"
  shows "\<exists>s1 t1. sendFile P (length ts) file s = Inr (s1, Some t1) \<and>
           sender_step P e (SendFile file) (s, ts) = Inr (s1, ts @ [t1]) \<and>
           transfer_inv P file (sent ch) (length ts) (s1, ts @ [t1])"
proof -
  from sendFile_ok[OF assms(1-3), of P "length ts" "file"] obtain s1 t1 where
    r: "sendFile P (length ts) file s = Inr (s1, Some t1)"
       "transfer_ok P file (sent ch) (length ts) (s1, t1)" by blast
  then show ?thesis using assms(4)
    by (simp add: sender_step_def bind_err_def transfer_inv_def)
qed

subsection \<open>Concrete runs and inbound chunk sequences\<close>

lemma connected_hook_dc: "dc connected_hook = Some open_channel"
  by (simp add: connected_hook_def dc_onopen_def)

lemma open_channel_simps:
  "readyState open_channel = DCOpen" "onbufferedamountlow open_channel = None"
  "sent open_channel = []"
  by (simp_all add: open_channel_def createDataChannel_def)

lemmas example_defs = connected_hook_def dc_onopen_def setupDataChannel_def
     open_channel_def createDataChannel_def example_file_def example_note_def
     example_platform_def table_platform_def FileMetaMessage_def FileInfo_js_def example_info_def
     example_note_info_def example_note_meta_text_def
     FileEndMessage_def example_meta_text_def example_end_text_def createOffer_def
     createPeerConnection_def resetState_def initial_def new_RTCPeerConnection_def example_env_def

lemma completion_schedule_3:
  "completion_schedule e k 3 =
     [(e, BufferedAmountChanged 0), (e, ReaderLoad k), (e, BufferedAmountChanged 0),
      (e, BufferedAmountLow),
      (e, BufferedAmountChanged 0), (e, TimerFired k),
      (e, BufferedAmountChanged 0), (e, TimerFired k),
      (e, BufferedAmountChanged 0), (e, TimerFired k),
      (e, BufferedAmountChanged 0), (e, TimerFired k)]"
  by (simp add: completion_schedule_def timer_rounds_def numeral_eq_Suc)

lemma hook_dc_same: "dc s = Some ch \<Longrightarrow> s\<lparr>dc := Some ch\<rparr> = s"
  by (cases s) simp

lemma channel_slot_same:
  "onbufferedamountlow ch = c \<Longrightarrow> ch\<lparr>onbufferedamountlow := c\<rparr> = ch"
  by (cases ch) simp

lemma example_parse_meta:
  "JSON_parse example_platform (JSON_stringify example_platform (FileMetaMessage (FileInfo_js example_info))) =
     Inr (FileMetaMessage (FileInfo_js example_info))"
  by (simp add: example_defs)

lemma example_parse_end:
  "JSON_parse example_platform (JSON_stringify example_platform FileEndMessage) = Inr FileEndMessage"
  by (simp add: example_defs)

lemma receive_chunks_active:
  "fileReceiver s = Some r \<Longrightarrow>
     receive_all P s (map (\<lambda>(e, b). (e, DArrayBuffer b)) ebs @ rest) =
       receive_all P (s\<lparr>fileReceiver := Some (r\<lparr>chunks := chunks r @ map snd ebs\<rparr>)\<rparr>) rest"
proof (induction ebs arbitrary: s r)
  case Nil
  then have "s\<lparr>fileReceiver := Some r\<rparr> = s" by (cases s) simp
  then show ?case by simp
next
  case (Cons eb ebs)
  obtain e b where eb: "eb = (e, b)" by (cases eb)
  let ?s' = "s\<lparr>fileReceiver := Some (r\<lparr>chunks := chunks r @ [b]\<rparr>)\<rparr>"
  have step: "handleDataChannelMessage P e s (DArrayBuffer b) = Inr ?s'"
    using Cons.prems by (simp add: handleDataChannelMessage_def)
  have "fileReceiver ?s' = Some (r\<lparr>chunks := chunks r @ [b]\<rparr>)" by simp
  from Cons.IH[OF this] show ?case
    using step by (simp add: eb bind_err_def)
qed

lemma receive_chunks_idle:
  "fileReceiver s = None \<Longrightarrow>
     receive_all P s (map (\<lambda>(e, b). (e, DArrayBuffer b)) ebs) = Inr s"
  by (induction ebs) (auto simp: handleDataChannelMessage_def bind_err_def)

subsection \<open>The frames one sendFile transmits\<close>

text \<open>
  C1, as the code has it. A file of size \<open>S\<close> sent with sendFile over an open channel
  on which no other transfer is in flight (every earlier call is over and the
  \<^verbatim>\<open>onbufferedamountlow\<close> slot is empty), with no other call of sendFile after it: whatever
  else happens on the channel (sendText, inbound frames, the read, timers,
  \<^verbatim>\<open>bufferedamountlow\<close>, any change of \<^verbatim>\<open>bufferedAmount\<close>), nothing throws, the frames
  sent before stay, and the frames this call has sent are a prefix of: one file-meta
  record, the chunks in offset order, one file-end record. They are exactly that sequence
  once the call has finished, and from wherever the transfer stands, suspended or not, it
  finishes, with exactly that sequence sent, once the channel drains and the pending read,
  \<^verbatim>\<open>bufferedamountlow\<close> event and timers are delivered. There are \<open>ceil (S / 16384)\<close>
  chunks, chunk \<open>i\<close> is the slice at offset \<open>i * 16384\<close>, every chunk has 16384 bytes but
  the last, which has \<open>S mod 16384\<close> (16384 when that is 0), and the chunks concatenated
  are the file.
\<close>

theorem sendFile_transmits:
  assumes "dc s = Some ch" and "readyState ch = DCOpen" and "onbufferedamountlow ch = None"
    and "list_all idle ts" and "\<forall>x \<in> set evs. \<not> is_SendFile (snd x)"
  shows "(\<exists>s' ts'. sender_run P ((e0, SendFile file) # evs) (s, ts) = Inr (s', ts') \<and>
            take (length (sent ch)) (frames_sent s') = sent ch \<and>
            prefix (file_frames (length ts) (drop (length (sent ch)) (frames_sent s')))
              (file_meta_frame P file #
                 map FBinary (chunks_of CHUNK_SIZE (file_bytes file)) @ [file_end_frame P]) \<and>
            (finished (ts' ! length ts) \<longrightarrow>
               file_frames (length ts) (drop (length (sent ch)) (frames_sent s')) =
                 file_meta_frame P file #
                   map FBinary (chunks_of CHUNK_SIZE (file_bytes file)) @ [file_end_frame P]) \<and>
            (\<exists>s'' ts''. sender_run P
                 (completion_schedule e (length ts) (length (chunks_of CHUNK_SIZE (file_bytes file))))
                 (s', ts') = Inr (s'', ts'') \<and>
               finished (ts'' ! length ts) \<and>
               file_frames (length ts) (drop (length (sent ch)) (frames_sent s'')) =
                 file_meta_frame P file #
                   map FBinary (chunks_of CHUNK_SIZE (file_bytes file)) @ [file_end_frame P])) \<and>
         length (chunks_of CHUNK_SIZE (file_bytes file)) = (length (file_bytes file) + 16383) div 16384 \<and>
         concat (chunks_of CHUNK_SIZE (file_bytes file)) = file_bytes file \<and>
         (\<forall>i < length (chunks_of CHUNK_SIZE (file_bytes file)).
            chunks_of CHUNK_SIZE (file_bytes file) ! i =
              take 16384 (drop (i * 16384) (file_bytes file)) \<and>
            length (chunks_of CHUNK_SIZE (file_bytes file) ! i) =
              (if Suc i < length (chunks_of CHUNK_SIZE (file_bytes file)) then 16384
               else if length (file_bytes file) mod 16384 = 0 then 16384
               else length (file_bytes file) mod 16384))"
proof -
  let ?k = "length ts"
  let ?n = "length (chunks_of CHUNK_SIZE (file_bytes file))"
  from sendFile_step_inv[OF assms(1-4), of P "file" e0] obtain s1 t1 where
    s1: "sender_step P e0 (SendFile file) (s, ts) = Inr (s1, ts @ [t1])" and
    inv1: "transfer_inv P file (sent ch) ?k (s1, ts @ [t1])" by blast
  from sender_run_inv[OF inv1 assms(5)] obtain s' ts' where
    r: "sender_run P evs (s1, ts @ [t1]) = Inr (s', ts')" and
    inv: "transfer_inv P file (sent ch) ?k (s', ts')" by auto
  have run: "sender_run P ((e0, SendFile file) # evs) (s, ts) = Inr (s', ts')"
    using s1 r by (simp add: bind_err_def)
  note fr = frames_of_call[OF inv]
  from completion_schedule_finishes[OF inv order_refl, of e] obtain s'' ts'' where
    c: "sender_run P (completion_schedule e ?k ?n) (s', ts') = Inr (s'', ts'')"
       "transfer_inv P file (sent ch) ?k (s'', ts'')" "finished (ts'' ! ?k)" by blast
  note fr' = frames_of_call[OF c(2)]
  have live: "\<exists>s'' ts''. sender_run P (completion_schedule e ?k ?n) (s', ts') = Inr (s'', ts'') \<and>
               finished (ts'' ! ?k) \<and>
               file_frames ?k (drop (length (sent ch)) (frames_sent s'')) = expected_frames P file"
    using c fr'(3) by blast
  have first: "\<exists>s' ts'. sender_run P ((e0, SendFile file) # evs) (s, ts) = Inr (s', ts') \<and>
            take (length (sent ch)) (frames_sent s') = sent ch \<and>
            prefix (file_frames ?k (drop (length (sent ch)) (frames_sent s')))
              (expected_frames P file) \<and>
            (finished (ts' ! ?k) \<longrightarrow>
               file_frames ?k (drop (length (sent ch)) (frames_sent s')) = expected_frames P file) \<and>
            (\<exists>s'' ts''. sender_run P (completion_schedule e ?k ?n) (s', ts') = Inr (s'', ts'') \<and>
               finished (ts'' ! ?k) \<and>
               file_frames ?k (drop (length (sent ch)) (frames_sent s'')) = expected_frames P file)"
    using run fr live by blast
  have len: "?n = (length (file_bytes file) + 16383) div 16384"
    using length_chunks_of[OF CHUNK_SIZE_pos, of "file_bytes file"] by (simp add: CHUNK_SIZE_def)
  have cat: "concat (chunks_of CHUNK_SIZE (file_bytes file)) = file_bytes file"
    by (rule concat_chunks_of[OF CHUNK_SIZE_pos])
  have sizes: "\<forall>i < ?n.
            chunks_of CHUNK_SIZE (file_bytes file) ! i =
              take 16384 (drop (i * 16384) (file_bytes file)) \<and>
            length (chunks_of CHUNK_SIZE (file_bytes file) ! i) =
              (if Suc i < ?n then 16384
               else if length (file_bytes file) mod 16384 = 0 then 16384
               else length (file_bytes file) mod 16384)"
  proof (intro allI impI)
    fix i assume i: "i < ?n"
    from nth_chunks_of[OF CHUNK_SIZE_pos i] length_nth_chunks_of[OF CHUNK_SIZE_pos i]
    show "chunks_of CHUNK_SIZE (file_bytes file) ! i =
              take 16384 (drop (i * 16384) (file_bytes file)) \<and>
            length (chunks_of CHUNK_SIZE (file_bytes file) ! i) =
              (if Suc i < ?n then 16384
               else if length (file_bytes file) mod 16384 = 0 then 16384
               else length (file_bytes file) mod 16384)"
      by (simp add: CHUNK_SIZE_def)
  qed
  from first len cat sizes show ?thesis unfolding expected_frames_def by blast
qed

text \<open>
  C1 as amended, at a file of 40000 bytes, with three chunks of 16384, 16384 and 7232
  bytes. In the run written out, every call of sendChunk from the read or the timer that
  has bytes left finds the channel above the threshold and suspends, and every chunk goes
  out on a \<^verbatim>\<open>bufferedamountlow\<close> event after the channel has drained; the last timer
  sends the file-end record. In the second run the sender suspends on the read, and the transfer
  runs to its end from there.
\<close>

theorem sendFile_transmits_witness:
  "dc connected_hook = Some open_channel \<and> readyState open_channel = DCOpen \<and>
   onbufferedamountlow open_channel = None \<and> list_all idle [] \<and>
   length (chunks_of CHUNK_SIZE (file_bytes example_file)) = 3 \<and>
   length (chunks_of CHUNK_SIZE (file_bytes example_file) ! 0) = 16384 \<and>
   length (chunks_of CHUNK_SIZE (file_bytes example_file) ! 1) = 16384 \<and>
   length (chunks_of CHUNK_SIZE (file_bytes example_file) ! 2) = 7232 \<and>
   sender_run example_platform
     [(example_env, SendFile example_file), (example_env, ReaderLoad 0),
      (example_env, BufferedAmountChanged 0), (example_env, BufferedAmountLow),
      (example_env, TimerFired 0),
      (example_env, BufferedAmountChanged 0), (example_env, BufferedAmountLow),
      (example_env, TimerFired 0),
      (example_env, BufferedAmountChanged 0), (example_env, BufferedAmountLow),
      (example_env, TimerFired 0)]
     (connected_hook, []) =
   Inr (connected_hook
          \<lparr>dc := Some (open_channel
             \<lparr>sent := [(ByFile 0, FText example_meta_text),
                       (ByFile 0, FBinary (replicate 16384 0)),
                       (ByFile 0, FBinary (replicate 16384 0)),
                       (ByFile 0, FBinary (replicate 7232 0)),
                       (ByFile 0, FText example_end_text)],
              bufferedAmount := 7232 + length example_end_text\<rparr>),
           receivedMessages :=
             [FileMessage (randomUUID example_env) Me (now example_env)
                (FileInfo_js example_info)
                (ObjectURL \<lparr>blob_bytes = file_bytes example_file,
                            blob_type = JStr ''application/octet-stream''\<rparr>)]\<rparr>,
        [\<lparr>t_file = example_file, t_fileInfo = example_info,
          buffer = file_bytes example_file, offset = 40000, reader_pending = False,
          timer_pending = False, finished = True\<rparr>]) \<and>
   (\<exists>s' ts' ch' s'' ts''.
      sender_run example_platform
        [(example_env, SendFile example_file), (example_env, ReaderLoad 0)]
        (connected_hook, []) = Inr (s', ts') \<and>
      dc s' = Some ch' \<and> onbufferedamountlow ch' = Some (ResumeSendChunk 0) \<and>
      sent ch' = [(ByFile 0, FText example_meta_text)] \<and>
      sender_run example_platform (completion_schedule example_env 0 3) (s', ts') =
        Inr (s'', ts'') \<and>
      finished (ts'' ! 0) \<and>
      file_frames 0 (frames_sent s'') =
        file_meta_frame example_platform example_file #
          map FBinary (chunks_of CHUNK_SIZE (file_bytes example_file)) @
          [file_end_frame example_platform])"
proof -
  let ?P = example_platform and ?e = example_env
  let ?ch1 = "open_channel\<lparr>sent := [(ByFile 0, FText example_meta_text)],
                 bufferedAmount := length example_meta_text,
                 onbufferedamountlow := Some (ResumeSendChunk 0)\<rparr>"
  let ?s1 = "connected_hook\<lparr>dc := Some ?ch1\<rparr>"
  let ?t1 = "\<lparr>t_file = example_file,
              t_fileInfo = \<lparr>fi_name = file_name example_file,
                 fi_size = length (file_bytes example_file), fi_type = file_type example_file\<rparr>,
              buffer = file_bytes example_file, offset = 0, reader_pending = False,
              timer_pending = False, finished = False\<rparr>"
  note h = connected_hook_dc open_channel_simps(1,2)
  have idle0: "list_all idle []" by simp
  have nosf: "\<forall>x \<in> set [(?e, ReaderLoad 0)]. \<not> is_SendFile (snd x)" by simp
  have a1: "sender_run ?P [(?e, SendFile example_file), (?e, ReaderLoad 0)] (connected_hook, []) =
              Inr (?s1, [?t1])"
    by (simp add: sender_step_def sendFile_def sendChunk_def run_sendChunk_def dc_send_def
        bind_err_def example_defs)
  have a2: "dc ?s1 = Some ?ch1" "onbufferedamountlow ?ch1 = Some (ResumeSendChunk 0)"
    "sent ?ch1 = [(ByFile 0, FText example_meta_text)]" by simp_all
  note inst = sendFile_transmits[OF h idle0 nosf, of ?P ?e example_file ?e]
  have S: "length (file_bytes example_file) = 40000" by (simp add: example_file_def)
  from inst S have n: "length (chunks_of CHUNK_SIZE (file_bytes example_file)) = 3" by simp
  from inst have sizes: "\<forall>i < length (chunks_of CHUNK_SIZE (file_bytes example_file)).
            length (chunks_of CHUNK_SIZE (file_bytes example_file) ! i) =
              (if Suc i < length (chunks_of CHUNK_SIZE (file_bytes example_file)) then 16384
               else if length (file_bytes example_file) mod 16384 = 0 then 16384
               else length (file_bytes example_file) mod 16384)" by blast
  have c0: "length (chunks_of CHUNK_SIZE (file_bytes example_file) ! 0) = 16384"
    using sizes[rule_format, of 0] n by simp
  have c1: "length (chunks_of CHUNK_SIZE (file_bytes example_file) ! 1) = 16384"
    using sizes[rule_format, of 1] n by simp
  have c2: "length (chunks_of CHUNK_SIZE (file_bytes example_file) ! 2) = 7232"
    using sizes[rule_format, of 2] n S by simp
  from inst obtain s' ts' s'' ts'' where
    r: "sender_run ?P ((?e, SendFile example_file) # [(?e, ReaderLoad 0)]) (connected_hook, []) =
          Inr (s', ts')"
       "sender_run ?P (completion_schedule ?e (length ([]::transfer list))
           (length (chunks_of CHUNK_SIZE (file_bytes example_file)))) (s', ts') = Inr (s'', ts'')"
       "finished (ts'' ! length ([]::transfer list))"
       "file_frames (length ([]::transfer list)) (drop (length (sent open_channel)) (frames_sent s'')) =
          file_meta_frame ?P example_file #
            map FBinary (chunks_of CHUNK_SIZE (file_bytes example_file)) @ [file_end_frame ?P]"
    by blast
  from r(1) a1 have eq: "s' = ?s1" "ts' = [?t1]" by simp_all
  from r(2-4) n have fin: "sender_run ?P (completion_schedule ?e 0 3) (?s1, [?t1]) = Inr (s'', ts'')"
    "finished (ts'' ! 0)"
    "file_frames 0 (frames_sent s'') =
          file_meta_frame ?P example_file #
            map FBinary (chunks_of CHUNK_SIZE (file_bytes example_file)) @ [file_end_frame ?P]"
    by (simp_all add: eq open_channel_simps)
  have congested: "sender_run example_platform
     [(example_env, SendFile example_file), (example_env, ReaderLoad 0),
      (example_env, BufferedAmountChanged 0), (example_env, BufferedAmountLow),
      (example_env, TimerFired 0),
      (example_env, BufferedAmountChanged 0), (example_env, BufferedAmountLow),
      (example_env, TimerFired 0),
      (example_env, BufferedAmountChanged 0), (example_env, BufferedAmountLow),
      (example_env, TimerFired 0)]
     (connected_hook, []) =
   Inr (connected_hook
          \<lparr>dc := Some (open_channel
             \<lparr>sent := [(ByFile 0, FText example_meta_text),
                       (ByFile 0, FBinary (replicate 16384 0)),
                       (ByFile 0, FBinary (replicate 16384 0)),
                       (ByFile 0, FBinary (replicate 7232 0)),
                       (ByFile 0, FText example_end_text)],
              bufferedAmount := 7232 + length example_end_text\<rparr>),
           receivedMessages :=
             [FileMessage (randomUUID example_env) Me (now example_env)
                (FileInfo_js example_info)
                (ObjectURL \<lparr>blob_bytes = file_bytes example_file,
                            blob_type = JStr ''application/octet-stream''\<rparr>)]\<rparr>,
        [\<lparr>t_file = example_file, t_fileInfo = example_info,
          buffer = file_bytes example_file, offset = 40000, reader_pending = False,
          timer_pending = False, finished = True\<rparr>])"
    by (simp add: sender_step_def sendFile_def sendChunk_def run_sendChunk_def dc_send_def
        bind_err_def CHUNK_SIZE_def Let_def example_defs)
  from h idle0 n c0 c1 c2 a1 a2 fin congested show ?thesis by blast
qed

text \<open>
  C1 as stated fails when two calls overlap: the second call's sendChunk replaces the
  first call's continuation in the one slot of the channel. After the channel has drained
  and every pending callback has run, and the completing events for the first call have
  been delivered too, the second file is complete on the wire and the first call has sent
  its file-meta record only: it has nothing pending and has not finished.
\<close>

theorem overlapping_sendFile_stalls:
  "sender_run example_platform (overlapping_calls @ completion_schedule example_env 0 3)
     (connected_hook, []) =
   Inr (connected_hook
          \<lparr>dc := Some (open_channel
             \<lparr>sent := [(ByFile 0, FText example_meta_text),
                       (ByFile 1, FText example_note_meta_text),
                       (ByFile 1, FBinary [104, 105]),
                       (ByFile 1, FText example_end_text)],
              bufferedAmount := 0\<rparr>),
           receivedMessages :=
             [FileMessage (randomUUID example_env) Me (now example_env)
                (FileInfo_js example_note_info)
                (ObjectURL \<lparr>blob_bytes = [104, 105], blob_type = JStr ''text/plain''\<rparr>)]\<rparr>,
        [\<lparr>t_file = example_file, t_fileInfo = example_info,
          buffer = file_bytes example_file, offset = 0, reader_pending = False,
          timer_pending = False, finished = False\<rparr>,
         \<lparr>t_file = example_note, t_fileInfo = example_note_info,
          buffer = [104, 105], offset = 2, reader_pending = False,
          timer_pending = False, finished = True\<rparr>])"
  by (simp add: overlapping_calls_def completion_schedule_3 sender_step_def
      sendFile_def sendChunk_def run_sendChunk_def dc_send_def bind_err_def CHUNK_SIZE_def
      Let_def example_defs)

subsection \<open>Reassembly on the receiving side\<close>

text \<open>
  C2. The frames sendFile sends for a file info \<open>{name, size, type}\<close>, received in order
  (the file-meta record, the chunks \<open>c1 .. cn\<close>, the file-end record) on a platform where
  parsing undoes serialising for these two records: whatever the state before, the receiver
  appends exactly one FileMessage, from the peer, whose \<open>fileInfo\<close> is the sender's
  \<open>{name, size, type}\<close>, whose blob is \<open>c1 @ ... @ cn\<close> tagged with the info's type, and
  leaves no transfer in flight; nothing else of the state changes.
\<close>

theorem file_round_trip:
  assumes "JSON_parse P (JSON_stringify P (FileMetaMessage (FileInfo_js fi))) =
             Inr (FileMetaMessage (FileInfo_js fi))"
      and "JSON_parse P (JSON_stringify P FileEndMessage) = Inr FileEndMessage"
  shows "receive_all P s
           ((e0, DString (JSON_stringify P (FileMetaMessage (FileInfo_js fi)))) #
            map (\<lambda>(e, c). (e, DArrayBuffer c)) ecs @
            [(e1, DString (JSON_stringify P FileEndMessage))]) =
         Inr (s\<lparr>receivedMessages := receivedMessages s @
                  [FileMessage (randomUUID e1) Peer (now e1) (FileInfo_js fi)
                     (ObjectURL \<lparr>blob_bytes = concat (map snd ecs),
                                 blob_type = JStr (fi_type fi)\<rparr>)],
                fileReceiver := None\<rparr>)"
proof -
  let ?r = "\<lparr>info = FileInfo_js fi, chunks = []\<rparr>"
  let ?s1 = "s\<lparr>fileReceiver := Some ?r\<rparr>"
  let ?s2 = "?s1\<lparr>fileReceiver := Some (?r\<lparr>chunks := chunks ?r @ map snd ecs\<rparr>)\<rparr>"
  have meta: "handleDataChannelMessage P e0 s
                (DString (JSON_stringify P (FileMetaMessage (FileInfo_js fi)))) = Inr ?s1"
    using assms(1)
    by (simp add: handleDataChannelMessage_def handle_try_def bind_err_def FileMetaMessage_def)
  have chunks: "receive_all P ?s1 (map (\<lambda>(e, c). (e, DArrayBuffer c)) ecs @
                  [(e1, DString (JSON_stringify P FileEndMessage))]) =
                receive_all P ?s2 [(e1, DString (JSON_stringify P FileEndMessage))]"
    by (rule receive_chunks_active) simp
  have fin: "handleDataChannelMessage P e1 ?s2 (DString (JSON_stringify P FileEndMessage)) =
               Inr (s\<lparr>receivedMessages := receivedMessages s @
                  [FileMessage (randomUUID e1) Peer (now e1) (FileInfo_js fi)
                     (ObjectURL \<lparr>blob_bytes = concat (map snd ecs),
                                 blob_type = JStr (fi_type fi)\<rparr>)],
                fileReceiver := None\<rparr>)"
    using assms(2)
    by (simp add: handleDataChannelMessage_def handle_try_def bind_err_def FileEndMessage_def
        FileInfo_js_def)
  show ?thesis using meta chunks fin by (simp add: bind_err_def)
qed

text \<open>
  C2 at a file info and two chunks, from the initial state.
\<close>

theorem file_round_trip_witness:
  "JSON_parse example_platform
     (JSON_stringify example_platform (FileMetaMessage (FileInfo_js example_info))) =
     Inr (FileMetaMessage (FileInfo_js example_info)) \<and>
   JSON_parse example_platform (JSON_stringify example_platform FileEndMessage) =
     Inr FileEndMessage \<and>
   receive_all example_platform initial
     [(example_env, DString example_meta_text), (example_env, DArrayBuffer [1, 2]),
      (example_env, DArrayBuffer [3]), (example_env, DString example_end_text)] =
   Inr (initial\<lparr>receivedMessages :=
          [FileMessage (randomUUID example_env) Peer (now example_env) (FileInfo_js example_info)
             (ObjectURL \<lparr>blob_bytes = [1, 2, 3],
                         blob_type = JStr ''application/octet-stream''\<rparr>)]\<rparr>)"
proof -
  have m: "JSON_stringify example_platform (FileMetaMessage (FileInfo_js example_info)) = example_meta_text"
    by (simp add: example_defs)
  have n: "JSON_stringify example_platform FileEndMessage = example_end_text"
    by (simp add: example_defs)
  note inst = file_round_trip[OF example_parse_meta example_parse_end, of initial example_env
      "[(example_env, [1, 2]), (example_env, [3])]" example_env]
  have "receive_all example_platform initial
     [(example_env, DString example_meta_text), (example_env, DArrayBuffer [1, 2]),
      (example_env, DArrayBuffer [3]), (example_env, DString example_end_text)] =
   Inr (initial\<lparr>receivedMessages :=
          [FileMessage (randomUUID example_env) Peer (now example_env) (FileInfo_js example_info)
             (ObjectURL \<lparr>blob_bytes = [1, 2, 3],
                         blob_type = JStr ''application/octet-stream''\<rparr>)]\<rparr>)"
    using inst unfolding m n by (simp add: initial_def example_info_def)
  with example_parse_meta example_parse_end show ?thesis by blast
qed

subsection \<open>Backpressure\<close>

text \<open>
  C3, as the code has it. In any state that a call of sendFile reaches, when no other
  transfer is in flight at the call and no other call of sendFile follows it:
  the read callback and the timer callback, the chunk loop itself, with bytes left and
  \<^verbatim>\<open>bufferedAmount\<close> above the threshold, send nothing, schedule nothing and put the
  call's continuation in the slot; at or below the threshold the timer callback sends
  exactly the chunk at the offset and schedules the next timer. While the continuation is
  in the slot no timer and no read is pending, bytes are left, and every event but
  \<^verbatim>\<open>bufferedamountlow\<close> leaves the closures and the slot as they are and sends nothing
  but a sendText record. The \<^verbatim>\<open>bufferedamountlow\<close> event empties the slot and calls
  sendChunk once: still above the threshold, the state is as before (suspended, nothing
  sent); otherwise exactly the chunk at the offset is sent, the timer is scheduled and
  the slot stays empty. With an empty slot the event does nothing.
\<close>

theorem backpressure_suspends:
  assumes "dc s = Some ch" and "readyState ch = DCOpen" and "onbufferedamountlow ch = None"
    and "list_all idle ts" and "\<forall>x \<in> set evs. \<not> is_SendFile (snd x)"
    and "sender_run P ((e0, SendFile file) # evs) (s, ts) = Inr (s2, ts2)"
    and "dc s2 = Some ch2"
  shows "(reader_pending (ts2 ! length ts) \<and> file_bytes file \<noteq> [] \<and>
            bufferedAmountLowThreshold ch2 < bufferedAmount ch2 \<longrightarrow>
            sender_step P e (ReaderLoad (length ts)) (s2, ts2) =
              Inr (s2\<lparr>dc := Some (ch2\<lparr>onbufferedamountlow :=
                                        Some (ResumeSendChunk (length ts))\<rparr>)\<rparr>,
                   ts2[length ts := (ts2 ! length ts)\<lparr>reader_pending := False,
                                      buffer := file_bytes file, offset := 0\<rparr>])) \<and>
         (timer_pending (ts2 ! length ts) \<and>
            offset (ts2 ! length ts) < length (file_bytes file) \<and>
            bufferedAmountLowThreshold ch2 < bufferedAmount ch2 \<longrightarrow>
            sender_step P e (TimerFired (length ts)) (s2, ts2) =
              Inr (s2\<lparr>dc := Some (ch2\<lparr>onbufferedamountlow :=
                                        Some (ResumeSendChunk (length ts))\<rparr>)\<rparr>,
                   ts2[length ts := (ts2 ! length ts)\<lparr>timer_pending := False\<rparr>])) \<and>
         (timer_pending (ts2 ! length ts) \<and>
            offset (ts2 ! length ts) < length (file_bytes file) \<and>
            \<not> bufferedAmountLowThreshold ch2 < bufferedAmount ch2 \<longrightarrow>
            sender_step P e (TimerFired (length ts)) (s2, ts2) =
              Inr (s2\<lparr>dc := Some (ch2
                     \<lparr>sent := sent ch2 @
                        [(ByFile (length ts),
                          FBinary (take CHUNK_SIZE
                            (drop (offset (ts2 ! length ts)) (file_bytes file))))],
                      bufferedAmount := bufferedAmount ch2 +
                        length (take CHUNK_SIZE
                          (drop (offset (ts2 ! length ts)) (file_bytes file)))\<rparr>)\<rparr>,
                   ts2[length ts := (ts2 ! length ts)
                     \<lparr>offset := offset (ts2 ! length ts) +
                        length (take CHUNK_SIZE
                          (drop (offset (ts2 ! length ts)) (file_bytes file))),
                      timer_pending := True\<rparr>])) \<and>
         (onbufferedamountlow ch2 \<noteq> None \<longrightarrow>
            onbufferedamountlow ch2 = Some (ResumeSendChunk (length ts)) \<and>
            \<not> timer_pending (ts2 ! length ts) \<and> \<not> reader_pending (ts2 ! length ts) \<and>
            \<not> finished (ts2 ! length ts) \<and>
            offset (ts2 ! length ts) < length (file_bytes file) \<and>
            (\<forall>ev. ev \<noteq> BufferedAmountLow \<and> \<not> is_SendFile ev \<longrightarrow>
               (\<exists>s' ch'. sender_step P e ev (s2, ts2) = Inr (s', ts2) \<and> dc s' = Some ch' \<and>
                  filter (\<lambda>p. fst p \<noteq> ByText) (sent ch') =
                    filter (\<lambda>p. fst p \<noteq> ByText) (sent ch2) \<and>
                  onbufferedamountlow ch' = onbufferedamountlow ch2)) \<and>
            sender_step P e BufferedAmountLow (s2, ts2) =
              (if bufferedAmountLowThreshold ch2 < bufferedAmount ch2 then Inr (s2, ts2)
               else Inr (s2\<lparr>dc := Some (ch2
                      \<lparr>onbufferedamountlow := None,
                       sent := sent ch2 @
                         [(ByFile (length ts),
                           FBinary (take CHUNK_SIZE
                             (drop (offset (ts2 ! length ts)) (file_bytes file))))],
                       bufferedAmount := bufferedAmount ch2 +
                         length (take CHUNK_SIZE
                           (drop (offset (ts2 ! length ts)) (file_bytes file)))\<rparr>)\<rparr>,
                    ts2[length ts := (ts2 ! length ts)
                      \<lparr>offset := offset (ts2 ! length ts) +
                         length (take CHUNK_SIZE
                           (drop (offset (ts2 ! length ts)) (file_bytes file))),
                       timer_pending := True\<rparr>]))) \<and>
         (onbufferedamountlow ch2 = None \<longrightarrow>
            sender_step P e BufferedAmountLow (s2, ts2) = Inr (s2, ts2))"
proof -
  let ?k = "length ts"
  let ?t = "ts2 ! ?k"
  let ?bytes = "file_bytes file"
  let ?chunk = "take CHUNK_SIZE (drop (offset ?t) ?bytes)"
  from sendFile_step_inv[OF assms(1-4), of P "file" e0] obtain s1 t1 where
    s1: "sender_step P e0 (SendFile file) (s, ts) = Inr (s1, ts @ [t1])" and
    inv1: "transfer_inv P file (sent ch) ?k (s1, ts @ [t1])" by blast
  from sender_run_inv[OF inv1 assms(5)] s1 assms(6) have
    inv: "transfer_inv P file (sent ch) ?k (s2, ts2)" by (auto simp: bind_err_def)
  note ch2 = assms(7)
  note p = transfer_inv_parts[OF inv]
  note f = transfer_ok_fields[OF p(3) ch2]
  have kl: "?k < length ts2" using p(1) by simp
  have reader: "reader_pending ?t \<and> ?bytes \<noteq> [] \<and>
            bufferedAmountLowThreshold ch2 < bufferedAmount ch2 \<longrightarrow>
            sender_step P e (ReaderLoad ?k) (s2, ts2) =
              Inr (s2\<lparr>dc := Some (ch2\<lparr>onbufferedamountlow := Some (ResumeSendChunk ?k)\<rparr>)\<rparr>,
                   ts2[?k := ?t\<lparr>reader_pending := False, buffer := ?bytes, offset := 0\<rparr>])"
    using ch2 kl f(2)
    by (simp add: sender_step_def run_sendChunk_def sendChunk_def bind_err_def)
  have timer_suspend: "timer_pending ?t \<and> offset ?t < length ?bytes \<and>
            bufferedAmountLowThreshold ch2 < bufferedAmount ch2 \<longrightarrow>
            sender_step P e (TimerFired ?k) (s2, ts2) =
              Inr (s2\<lparr>dc := Some (ch2\<lparr>onbufferedamountlow := Some (ResumeSendChunk ?k)\<rparr>)\<rparr>,
                   ts2[?k := ?t\<lparr>timer_pending := False\<rparr>])"
  proof (intro impI, elim conjE)
    assume tp: "timer_pending ?t" and lt: "offset ?t < length ?bytes"
      and hi: "bufferedAmountLowThreshold ch2 < bufferedAmount ch2"
    from tp f(3) have "\<not> reader_pending ?t" by (auto simp: one_pending_def split: if_splits)
    with f(4) have buf: "buffer ?t = ?bytes" by simp
    from tp lt hi buf ch2 kl show "sender_step P e (TimerFired ?k) (s2, ts2) =
              Inr (s2\<lparr>dc := Some (ch2\<lparr>onbufferedamountlow := Some (ResumeSendChunk ?k)\<rparr>)\<rparr>,
                   ts2[?k := ?t\<lparr>timer_pending := False\<rparr>])"
      by (simp add: sender_step_def run_sendChunk_def sendChunk_def bind_err_def)
  qed
  have timer_send: "timer_pending ?t \<and> offset ?t < length ?bytes \<and>
            \<not> bufferedAmountLowThreshold ch2 < bufferedAmount ch2 \<longrightarrow>
            sender_step P e (TimerFired ?k) (s2, ts2) =
              Inr (s2\<lparr>dc := Some (ch2
                     \<lparr>sent := sent ch2 @ [(ByFile ?k, FBinary ?chunk)],
                      bufferedAmount := bufferedAmount ch2 + length ?chunk\<rparr>)\<rparr>,
                   ts2[?k := ?t\<lparr>offset := offset ?t + length ?chunk,
                                 timer_pending := True\<rparr>])"
  proof (intro impI, elim conjE)
    assume tp: "timer_pending ?t" and lt: "offset ?t < length ?bytes"
      and lo: "\<not> bufferedAmountLowThreshold ch2 < bufferedAmount ch2"
    from tp f(3) have "\<not> reader_pending ?t" by (auto simp: one_pending_def split: if_splits)
    with f(4) have buf: "buffer ?t = ?bytes" by simp
    from tp lt lo buf ch2 kl f(1) show "sender_step P e (TimerFired ?k) (s2, ts2) =
              Inr (s2\<lparr>dc := Some (ch2
                     \<lparr>sent := sent ch2 @ [(ByFile ?k, FBinary ?chunk)],
                      bufferedAmount := bufferedAmount ch2 + length ?chunk\<rparr>)\<rparr>,
                   ts2[?k := ?t\<lparr>offset := offset ?t + length ?chunk,
                                 timer_pending := True\<rparr>])"
      by (simp add: sender_step_def run_sendChunk_def sendChunk_def dc_send_def bind_err_def
          Let_def)
  qed
  have idle_slot: "onbufferedamountlow ch2 = None \<longrightarrow>
            sender_step P e BufferedAmountLow (s2, ts2) = Inr (s2, ts2)"
    using ch2 by (simp add: sender_step_def)
  have susp: "onbufferedamountlow ch2 = Some (ResumeSendChunk ?k) \<and>
            \<not> timer_pending ?t \<and> \<not> reader_pending ?t \<and> \<not> finished ?t \<and>
            offset ?t < length ?bytes \<and>
            (\<forall>ev. ev \<noteq> BufferedAmountLow \<and> \<not> is_SendFile ev \<longrightarrow>
               (\<exists>s' ch'. sender_step P e ev (s2, ts2) = Inr (s', ts2) \<and> dc s' = Some ch' \<and>
                  filter (\<lambda>p. fst p \<noteq> ByText) (sent ch') =
                    filter (\<lambda>p. fst p \<noteq> ByText) (sent ch2) \<and>
                  onbufferedamountlow ch' = onbufferedamountlow ch2)) \<and>
            sender_step P e BufferedAmountLow (s2, ts2) =
              (if bufferedAmountLowThreshold ch2 < bufferedAmount ch2 then Inr (s2, ts2)
               else Inr (s2\<lparr>dc := Some (ch2
                      \<lparr>onbufferedamountlow := None,
                       sent := sent ch2 @ [(ByFile ?k, FBinary ?chunk)],
                       bufferedAmount := bufferedAmount ch2 + length ?chunk\<rparr>)\<rparr>,
                    ts2[?k := ?t\<lparr>offset := offset ?t + length ?chunk,
                                  timer_pending := True\<rparr>]))"
    if some: "onbufferedamountlow ch2 \<noteq> None"
  proof -
    from some f(3) have slot: "onbufferedamountlow ch2 = Some (ResumeSendChunk ?k)"
      by (auto simp: one_pending_def)
    from slot f(3) have np: "\<not> timer_pending ?t" "\<not> reader_pending ?t" "\<not> finished ?t"
      by (auto simp: one_pending_def split: if_splits)
    from slot f(5) have lt: "offset ?t < length ?bytes" by simp
    from np(2) f(4) have buf: "buffer ?t = ?bytes" by simp
    have quiet: "\<exists>s' ch'. sender_step P e ev (s2, ts2) = Inr (s', ts2) \<and> dc s' = Some ch' \<and>
                  filter (\<lambda>p. fst p \<noteq> ByText) (sent ch') =
                    filter (\<lambda>p. fst p \<noteq> ByText) (sent ch2) \<and>
                  onbufferedamountlow ch' = onbufferedamountlow ch2"
      if ev: "ev \<noteq> BufferedAmountLow \<and> \<not> is_SendFile ev" for ev
    proof (cases ev)
      case (SendFile x)
      with ev show ?thesis by simp
    next
      case (SendText msg)
      with ch2 f(1) show ?thesis
        by (simp add: sender_step_def sendText_def dc_send_def bind_err_def)
    next
      case (Inbound d)
      from handleDataChannelMessage_dc[of P e s2 d] obtain s' where
        "handleDataChannelMessage P e s2 d = Inr s'" "dc s' = dc s2" by blast
      with ch2 show ?thesis by (simp add: Inbound sender_step_def bind_err_def)
    next
      case (ReaderLoad j)
      have "\<not> (j < length ts2 \<and> reader_pending (ts2 ! j))"
        using earlier_call_idle(1)[OF inv, of j] np(2) by (cases "j = ?k") auto
      with ch2 show ?thesis by (auto simp add: ReaderLoad sender_step_def)
    next
      case (TimerFired j)
      have "\<not> (j < length ts2 \<and> timer_pending (ts2 ! j))"
        using earlier_call_idle(2)[OF inv, of j] np(1) by (cases "j = ?k") auto
      with ch2 show ?thesis by (auto simp add: TimerFired sender_step_def)
    next
      case BufferedAmountLow
      with ev show ?thesis by simp
    next
      case (BufferedAmountChanged n)
      with ch2 show ?thesis by (simp add: sender_step_def)
    qed
    have same: "s2\<lparr>dc := Some (ch2\<lparr>onbufferedamountlow := Some (ResumeSendChunk ?k)\<rparr>)\<rparr> = s2"
      using channel_slot_same[OF slot] hook_dc_same[OF ch2] by simp
    have same_ts: "ts2[?k := ?t] = ts2" by simp
    have resume: "sender_step P e BufferedAmountLow (s2, ts2) =
              (if bufferedAmountLowThreshold ch2 < bufferedAmount ch2 then Inr (s2, ts2)
               else Inr (s2\<lparr>dc := Some (ch2
                      \<lparr>onbufferedamountlow := None,
                       sent := sent ch2 @ [(ByFile ?k, FBinary ?chunk)],
                       bufferedAmount := bufferedAmount ch2 + length ?chunk\<rparr>)\<rparr>,
                    ts2[?k := ?t\<lparr>offset := offset ?t + length ?chunk,
                                  timer_pending := True\<rparr>]))"
      using ch2 slot kl lt buf f(1) same same_ts
      by (simp add: sender_step_def run_sendChunk_def sendChunk_def dc_send_def bind_err_def
          Let_def)
    from slot np lt quiet resume show ?thesis by blast
  qed
  from reader timer_suspend timer_send susp idle_slot show ?thesis by blast
qed

text \<open>
  C3 as amended, at the 40000-byte file: the first chunk goes out on the read, the timer
  callback finds it still buffered and suspends in the middle of the loop, and after the
  channel has drained the \<^verbatim>\<open>bufferedamountlow\<close> event sends the second chunk.
\<close>

theorem backpressure_suspends_witness:
  "\<exists>s2 ts2 ch2 s3 ts3 ch3.
     dc connected_hook = Some open_channel \<and> readyState open_channel = DCOpen \<and>
     onbufferedamountlow open_channel = None \<and> list_all idle [] \<and>
     sender_run example_platform
       [(example_env, SendFile example_file), (example_env, BufferedAmountChanged 0),
        (example_env, ReaderLoad 0)] (connected_hook, []) = Inr (s2, ts2) \<and>
     dc s2 = Some ch2 \<and>
     sent ch2 = [(ByFile 0, FText example_meta_text), (ByFile 0, FBinary (replicate 16384 0))] \<and>
     timer_pending (ts2 ! 0) \<and> offset (ts2 ! 0) = 16384 \<and>
     bufferedAmountLowThreshold ch2 < bufferedAmount ch2 \<and>
     sender_step example_platform example_env (TimerFired 0) (s2, ts2) =
       Inr (s2\<lparr>dc := Some (ch2\<lparr>onbufferedamountlow := Some (ResumeSendChunk 0)\<rparr>)\<rparr>,
            ts2[0 := (ts2 ! 0)\<lparr>timer_pending := False\<rparr>]) \<and>
     sender_run example_platform
       [(example_env, SendFile example_file), (example_env, BufferedAmountChanged 0),
        (example_env, ReaderLoad 0), (example_env, TimerFired 0),
        (example_env, BufferedAmountChanged 0)] (connected_hook, []) = Inr (s3, ts3) \<and>
     dc s3 = Some ch3 \<and> onbufferedamountlow ch3 = Some (ResumeSendChunk 0) \<and>
     sent ch3 = sent ch2 \<and> offset (ts3 ! 0) = 16384 \<and>
     \<not> bufferedAmountLowThreshold ch3 < bufferedAmount ch3 \<and>
     sender_step example_platform example_env BufferedAmountLow (s3, ts3) =
       Inr (s3\<lparr>dc := Some (ch3
              \<lparr>onbufferedamountlow := None,
               sent := sent ch3 @ [(ByFile 0, FBinary (replicate 16384 0))],
               bufferedAmount := 16384\<rparr>)\<rparr>,
            ts3[0 := (ts3 ! 0)\<lparr>offset := 32768, timer_pending := True\<rparr>])"
proof -
  let ?P = example_platform and ?e = example_env
  let ?ch2 = "open_channel\<lparr>sent := [(ByFile 0, FText example_meta_text),
                                     (ByFile 0, FBinary (replicate 16384 0))],
                 bufferedAmount := 16384\<rparr>"
  let ?s2 = "connected_hook\<lparr>dc := Some ?ch2\<rparr>"
  let ?t2 = "\<lparr>t_file = example_file,
              t_fileInfo = \<lparr>fi_name = file_name example_file,
                 fi_size = length (file_bytes example_file), fi_type = file_type example_file\<rparr>,
              buffer = file_bytes example_file, offset = 16384, reader_pending = False,
              timer_pending = True, finished = False\<rparr>"
  let ?ch3 = "?ch2\<lparr>onbufferedamountlow := Some (ResumeSendChunk 0), bufferedAmount := 0\<rparr>"
  let ?s3 = "connected_hook\<lparr>dc := Some ?ch3\<rparr>"
  let ?t3 = "?t2\<lparr>timer_pending := False\<rparr>"
  let ?evs2 = "[(?e, BufferedAmountChanged 0), (?e, ReaderLoad 0)]"
  let ?evs3 = "[(?e, BufferedAmountChanged 0), (?e, ReaderLoad 0), (?e, TimerFired 0),
                (?e, BufferedAmountChanged 0)]"
  note h = connected_hook_dc open_channel_simps(1,2)
  have idle0: "list_all idle []" by simp
  have no2: "\<forall>x \<in> set ?evs2. \<not> is_SendFile (snd x)" by simp
  have no3: "\<forall>x \<in> set ?evs3. \<not> is_SendFile (snd x)" by simp
  have a2: "sender_run ?P ((?e, SendFile example_file) # ?evs2) (connected_hook, []) =
              Inr (?s2, [?t2])"
    by (simp add: sender_step_def sendFile_def sendChunk_def run_sendChunk_def dc_send_def
        bind_err_def CHUNK_SIZE_def Let_def example_defs)
  have a3: "sender_run ?P ((?e, SendFile example_file) # ?evs3) (connected_hook, []) =
              Inr (?s3, [?t3])"
    by (simp add: sender_step_def sendFile_def sendChunk_def run_sendChunk_def dc_send_def
        bind_err_def CHUNK_SIZE_def Let_def example_defs)
  have d2: "dc ?s2 = Some ?ch2" and d3: "dc ?s3 = Some ?ch3" by simp_all
  have facts2: "sent ?ch2 = [(ByFile 0, FText example_meta_text),
                            (ByFile 0, FBinary (replicate 16384 0))]"
    "timer_pending ([?t2] ! 0)" "offset ([?t2] ! 0) = 16384"
    "bufferedAmountLowThreshold ?ch2 < bufferedAmount ?ch2"
    "offset ([?t2] ! 0) < length (file_bytes example_file)"
    by (simp_all add: example_defs)
  have facts3: "onbufferedamountlow ?ch3 = Some (ResumeSendChunk 0)" "sent ?ch3 = sent ?ch2"
    "offset ([?t3] ! 0) = 16384" "\<not> bufferedAmountLowThreshold ?ch3 < bufferedAmount ?ch3"
    by (simp_all add: example_defs)
  note i2 = backpressure_suspends[OF h idle0 no2 a2 d2, of ?e]
  note i3 = backpressure_suspends[OF h idle0 no3 a3 d3, of ?e]
  from i2 facts2 have suspend:
    "sender_step ?P ?e (TimerFired 0) (?s2, [?t2]) =
       Inr (?s2\<lparr>dc := Some (?ch2\<lparr>onbufferedamountlow := Some (ResumeSendChunk 0)\<rparr>)\<rparr>,
            [?t2][0 := ([?t2] ! 0)\<lparr>timer_pending := False\<rparr>])"
    by simp
  from i3 facts3(1) have low:
    "sender_step ?P ?e BufferedAmountLow (?s3, [?t3]) =
       (if bufferedAmountLowThreshold ?ch3 < bufferedAmount ?ch3 then Inr (?s3, [?t3])
        else Inr (?s3\<lparr>dc := Some (?ch3
                      \<lparr>onbufferedamountlow := None,
                       sent := sent ?ch3 @
                         [(ByFile (length ([]::transfer list)),
                           FBinary (take CHUNK_SIZE
                             (drop (offset ([?t3] ! length ([]::transfer list)))
                                (file_bytes example_file))))],
                       bufferedAmount := bufferedAmount ?ch3 +
                         length (take CHUNK_SIZE
                           (drop (offset ([?t3] ! length ([]::transfer list)))
                              (file_bytes example_file)))\<rparr>)\<rparr>,
                    [?t3][length ([]::transfer list) := ([?t3] ! length ([]::transfer list))
                      \<lparr>offset := offset ([?t3] ! length ([]::transfer list)) +
                         length (take CHUNK_SIZE
                           (drop (offset ([?t3] ! length ([]::transfer list)))
                              (file_bytes example_file))),
                       timer_pending := True\<rparr>]))"
    by blast
  have resumed:
    "sender_step ?P ?e BufferedAmountLow (?s3, [?t3]) =
       Inr (?s3\<lparr>dc := Some (?ch3
              \<lparr>onbufferedamountlow := None,
               sent := sent ?ch3 @ [(ByFile 0, FBinary (replicate 16384 0))],
               bufferedAmount := 16384\<rparr>)\<rparr>,
            [?t3][0 := ([?t3] ! 0)\<lparr>offset := 32768, timer_pending := True\<rparr>])"
    unfolding low by (simp add: CHUNK_SIZE_def example_defs)
  from h idle0 a2 a3 d2 d3 facts2(1-4) facts3 suspend resumed show ?thesis
    by (intro exI[of _ ?s2] exI[of _ "[?t2]"] exI[of _ ?ch2] exI[of _ ?s3] exI[of _ "[?t3]"]
        exI[of _ ?ch3]) (simp only: simp_thms)
qed

text \<open>
  C3 as stated fails when two calls overlap: the first call suspends and its continuation
  is in the slot; the second call suspends and its continuation replaces it; the channel
  drains and \<^verbatim>\<open>bufferedamountlow\<close> fires twice: the second call resumes, the first
  never does, and no continuation of it is left.
\<close>

theorem overlapping_sendFile_loses_continuation:
  "sender_run example_platform
     [(example_env, SendFile example_file), (example_env, ReaderLoad 0)] (connected_hook, []) =
   Inr (connected_hook
          \<lparr>dc := Some (open_channel
             \<lparr>sent := [(ByFile 0, FText example_meta_text)],
              bufferedAmount := length example_meta_text,
              onbufferedamountlow := Some (ResumeSendChunk 0)\<rparr>)\<rparr>,
        [\<lparr>t_file = example_file, t_fileInfo = example_info,
          buffer = file_bytes example_file, offset = 0, reader_pending = False,
          timer_pending = False, finished = False\<rparr>]) \<and>
   sender_run example_platform
     [(example_env, SendFile example_file), (example_env, ReaderLoad 0),
      (example_env, SendFile example_note), (example_env, ReaderLoad 1)] (connected_hook, []) =
   Inr (connected_hook
          \<lparr>dc := Some (open_channel
             \<lparr>sent := [(ByFile 0, FText example_meta_text),
                       (ByFile 1, FText example_note_meta_text)],
              bufferedAmount := length example_meta_text + length example_note_meta_text,
              onbufferedamountlow := Some (ResumeSendChunk 1)\<rparr>)\<rparr>,
        [\<lparr>t_file = example_file, t_fileInfo = example_info,
          buffer = file_bytes example_file, offset = 0, reader_pending = False,
          timer_pending = False, finished = False\<rparr>,
         \<lparr>t_file = example_note, t_fileInfo = example_note_info,
          buffer = [104, 105], offset = 0, reader_pending = False,
          timer_pending = False, finished = False\<rparr>]) \<and>
   sender_run example_platform
     [(example_env, SendFile example_file), (example_env, ReaderLoad 0),
      (example_env, SendFile example_note), (example_env, ReaderLoad 1),
      (example_env, BufferedAmountChanged 0), (example_env, BufferedAmountLow),
      (example_env, BufferedAmountChanged 0), (example_env, BufferedAmountLow)]
     (connected_hook, []) =
   Inr (connected_hook
          \<lparr>dc := Some (open_channel
             \<lparr>sent := [(ByFile 0, FText example_meta_text),
                       (ByFile 1, FText example_note_meta_text),
                       (ByFile 1, FBinary [104, 105])],
              bufferedAmount := 0, onbufferedamountlow := None\<rparr>)\<rparr>,
        [\<lparr>t_file = example_file, t_fileInfo = example_info,
          buffer = file_bytes example_file, offset = 0, reader_pending = False,
          timer_pending = False, finished = False\<rparr>,
         \<lparr>t_file = example_note, t_fileInfo = example_note_info,
          buffer = [104, 105], offset = 2, reader_pending = False,
          timer_pending = True, finished = False\<rparr>])"
  by (simp add: sender_step_def sendFile_def sendChunk_def run_sendChunk_def dc_send_def
      bind_err_def CHUNK_SIZE_def Let_def example_defs)

subsection \<open>The channel handle across transitions\<close>

text \<open>
  C4, as the code has it. resetState (explicit reset and channel close) moves the session
  to Disconnected and releases the channel handle and the connection handle.
  The transitions into Failed do not release the channel: the connection-failure handler
  and setRemoteAnswer leave the handle as it was, and so does createAnswer when a connection
  handle exists (without one it resets first, so the handle is null).
\<close>

theorem reset_releases_channel:
  "dc (resetState s) = None \<and> pc (resetState s) = None \<and>
   connectionState (resetState s) = Disconnected \<and>
   dc_onclose s = resetState s \<and>
   dc (onconnectionstatechange st s) = dc s \<and>
   dc (fst (setRemoteAnswer P blob s)) = dc s \<and>
   (pc s \<noteq> None \<longrightarrow> dc (fst (createAnswer P blob s)) = dc s) \<and>
   (pc s = None \<longrightarrow> dc (fst (createAnswer P blob s)) = None)"
  by (auto simp: resetState_def dc_onclose_def onconnectionstatechange_def setRemoteAnswer_def
      setRemoteAnswer_try_def createAnswer_def createAnswer_try_def createAnswer_prepare_def
      createPeerConnection_def split: sum.splits option.splits prod.splits)

text \<open>
  C4 as amended, at the offerer after createOffer.
\<close>

theorem reset_releases_channel_witness:
  "pc (fst (createOffer example_platform initial)) \<noteq> None \<and>
   dc (fst (createOffer example_platform initial)) = Some createDataChannel \<and>
   dc (resetState (fst (createOffer example_platform initial))) = None \<and>
   dc (fst (createAnswer example_platform ''hello'' (fst (createOffer example_platform initial)))) =
     Some createDataChannel \<and>
   connectionState
     (fst (createAnswer example_platform ''hello'' (fst (createOffer example_platform initial)))) =
     Failed"
proof -
  let ?s = "fst (createOffer example_platform initial)"
  have p: "pc ?s \<noteq> None" and d: "dc ?s = Some createDataChannel"
    by (simp_all add: example_defs)
  have f: "connectionState (fst (createAnswer example_platform ''hello'' ?s)) = Failed"
    by (simp add: createAnswer_def createAnswer_try_def createAnswer_prepare_def example_defs)
  from reset_releases_channel[of ?s PCFailed example_platform "''hello''"] p d f
  show ?thesis by simp
qed

text \<open>
  C4 as stated fails: after a successful createOffer the connection-failure signal moves
  the session to Failed with the channel handle still set.
\<close>

theorem failed_keeps_channel:
  "createOffer example_platform initial =
     (initial\<lparr>pc := Some (new_RTCPeerConnection\<lparr>localDescription :=
                   Some (JObj [(''type'', JStr ''offer'')])\<rparr>),
              dc := Some createDataChannel, connectionState := Connecting\<rparr>, None) \<and>
   connectionState (onconnectionstatechange PCFailed (fst (createOffer example_platform initial))) =
     Failed \<and>
   dc (onconnectionstatechange PCFailed (fst (createOffer example_platform initial))) =
     Some createDataChannel"
  by (simp add: onconnectionstatechange_def example_defs)

subsection \<open>Negotiation failures\<close>

text \<open>
  C5, as the code has it. When the \<^verbatim>\<open>try\<close> block of createAnswer throws, and, for
  setRemoteAnswer, when a connection handle exists and its \<^verbatim>\<open>try\<close> block throws, the
  session is left in Failed with the function's diagnostic, which is not empty; a blob
  that does not parse and a description the connection rejects are such throws; neither
  function rejects its promise. Without a connection handle setRemoteAnswer changes
  nothing, whatever the blob.
\<close>

theorem negotiation_failure_reported:
  "(isl (createAnswer_try P blob (createAnswer_prepare s)) \<longrightarrow>
      connectionState (fst (createAnswer P blob s)) = Failed \<and>
      errorMessage (fst (createAnswer P blob s)) = Some invalid_offer_text) \<and>
   (pc s \<noteq> None \<and> isl (setRemoteAnswer_try P blob s) \<longrightarrow>
      connectionState (fst (setRemoteAnswer P blob s)) = Failed \<and>
      errorMessage (fst (setRemoteAnswer P blob s)) = Some invalid_answer_text) \<and>
   (JSON_parse P blob = Inl err \<longrightarrow>
      isl (createAnswer_try P blob (createAnswer_prepare s)) \<and>
      isl (setRemoteAnswer_try P blob s)) \<and>
   (JSON_parse P blob = Inr v \<and> pc s = Some c \<and> pc_setRemoteDescription P v c = Inl err \<longrightarrow>
      isl (createAnswer_try P blob (createAnswer_prepare s)) \<and>
      isl (setRemoteAnswer_try P blob s)) \<and>
   (pc s = None \<longrightarrow> setRemoteAnswer P blob s = (s, None)) \<and>
   snd (createAnswer P blob s) = None \<and> snd (setRemoteAnswer P blob s) = None \<and>
   invalid_offer_text \<noteq> [] \<and> invalid_answer_text \<noteq> []"
proof -
  have a: "isl (createAnswer_try P blob (createAnswer_prepare s)) \<longrightarrow>
      connectionState (fst (createAnswer P blob s)) = Failed \<and>
      errorMessage (fst (createAnswer P blob s)) = Some invalid_offer_text"
    by (auto simp: createAnswer_def split: sum.splits)
  have b: "pc s \<noteq> None \<and> isl (setRemoteAnswer_try P blob s) \<longrightarrow>
      connectionState (fst (setRemoteAnswer P blob s)) = Failed \<and>
      errorMessage (fst (setRemoteAnswer P blob s)) = Some invalid_answer_text"
    by (auto simp: setRemoteAnswer_def split: sum.splits)
  have c: "JSON_parse P blob = Inl err \<longrightarrow>
      isl (createAnswer_try P blob (createAnswer_prepare s)) \<and>
      isl (setRemoteAnswer_try P blob s)"
    by (simp add: createAnswer_try_def setRemoteAnswer_try_def)
  have d: "JSON_parse P blob = Inr v \<and> pc s = Some c \<and> pc_setRemoteDescription P v c = Inl err \<longrightarrow>
      isl (createAnswer_try P blob (createAnswer_prepare s)) \<and>
      isl (setRemoteAnswer_try P blob s)"
    by (simp add: createAnswer_try_def setRemoteAnswer_try_def createAnswer_prepare_def)
  have e: "snd (createAnswer P blob s) = None" "snd (setRemoteAnswer P blob s) = None"
    by (auto simp: createAnswer_def setRemoteAnswer_def split: sum.splits)
  have f: "invalid_offer_text \<noteq> []" "invalid_answer_text \<noteq> []"
    by (simp_all add: invalid_offer_text_def invalid_answer_text_def)
  have g: "pc s = None \<longrightarrow> setRemoteAnswer P blob s = (s, None)"
    by (simp add: setRemoteAnswer_def)
  from a b c d e f g show ?thesis by blast
qed

text \<open>
  C5 as amended: a blob that does not parse, given to createAnswer and to setRemoteAnswer
  after createOffer, and a blob that parses to a description the connection rejects.
\<close>

theorem negotiation_failure_reported_witness:
  "JSON_parse example_platform ''hello'' = Inl SyntaxError \<and>
   pc (fst (createOffer example_platform initial)) \<noteq> None \<and>
   connectionState (fst (createAnswer example_platform ''hello'' initial)) = Failed \<and>
   errorMessage (fst (createAnswer example_platform ''hello'' initial)) = Some invalid_offer_text \<and>
   connectionState
     (fst (setRemoteAnswer example_platform ''hello'' (fst (createOffer example_platform initial)))) =
     Failed \<and>
   errorMessage
     (fst (setRemoteAnswer example_platform ''hello'' (fst (createOffer example_platform initial)))) =
     Some invalid_answer_text \<and>
   JSON_parse example_platform ''5'' = Inr (JNum 5) \<and>
   connectionState
     (fst (setRemoteAnswer example_platform ''5'' (fst (createOffer example_platform initial)))) =
     Failed"
proof -
  let ?s = "fst (createOffer example_platform initial)"
  have p: "JSON_parse example_platform ''hello'' = Inl SyntaxError"
    and q: "JSON_parse example_platform ''5'' = Inr (JNum 5)"
    by (simp_all add: example_defs)
  have c: "pc ?s = Some (new_RTCPeerConnection\<lparr>localDescription :=
                   Some (JObj [(''type'', JStr ''offer'')])\<rparr>)"
    by (simp add: example_defs)
  have r: "pc_setRemoteDescription example_platform (JNum 5)
             (new_RTCPeerConnection\<lparr>localDescription :=
                   Some (JObj [(''type'', JStr ''offer'')])\<rparr>) = Inl TypeError"
    by (simp add: example_defs)
  from negotiation_failure_reported[of example_platform "''hello''" initial SyntaxError] p
  have 1: "connectionState (fst (createAnswer example_platform ''hello'' initial)) = Failed"
    "errorMessage (fst (createAnswer example_platform ''hello'' initial)) = Some invalid_offer_text"
    by blast+
  from negotiation_failure_reported[of example_platform "''hello''" ?s SyntaxError] p c
  have 2: "connectionState (fst (setRemoteAnswer example_platform ''hello'' ?s)) = Failed"
    "errorMessage (fst (setRemoteAnswer example_platform ''hello'' ?s)) = Some invalid_answer_text"
    by (metis option.distinct(1))+
  from negotiation_failure_reported[where P = example_platform and blob = "''5''" and s = ?s
      and v = "JNum 5" and err = TypeError
      and c = "new_RTCPeerConnection\<lparr>localDescription := Some (JObj [(''type'', JStr ''offer'')])\<rparr>"]
    q c r
  have 3: "connectionState (fst (setRemoteAnswer example_platform ''5'' ?s)) = Failed"
    by (metis option.distinct(1))
  from p q c 1 2 3 show ?thesis by simp
qed

text \<open>
  C5 as stated fails: setRemoteAnswer without a connection handle returns at its guard,
  whatever the blob; the state stays Disconnected with no diagnostic.
\<close>

theorem setRemoteAnswer_without_connection:
  "JSON_parse example_platform ''hello'' = Inl SyntaxError \<and>
   pc initial = None \<and>
   setRemoteAnswer example_platform ''hello'' initial = (initial, None) \<and>
   connectionState initial = Disconnected \<and> errorMessage initial = None"
  by (simp add: setRemoteAnswer_def example_defs)

subsection \<open>The inbound frame handler\<close>

text \<open>
  C6. A string frame on which \<^verbatim>\<open>JSON.parse\<close> throws appends one text message whose
  content is the whole frame, from the peer, and changes nothing else; and the handler
  returns normally on every inbound unit.
\<close>

theorem parse_failure_falls_back:
  "(JSON_parse P d = Inl err \<longrightarrow>
      handleDataChannelMessage P e s (DString d) =
        Inr (s\<lparr>receivedMessages := receivedMessages s @
                 [TextMessage (randomUUID e) d Peer (now e)]\<rparr>)) \<and>
   (\<exists>s'. handleDataChannelMessage P e s ev = Inr s')"
proof -
  have "\<exists>s'. handleDataChannelMessage P e s ev = Inr s'"
    by (cases ev) (auto simp: handleDataChannelMessage_def split: sum.splits option.splits)
  then show ?thesis
    by (simp add: handleDataChannelMessage_def handle_try_def bind_err_def handle_catch_def)
qed

text \<open>
  C6 at a frame that is not JSON.
\<close>

theorem parse_failure_falls_back_witness:
  "JSON_parse example_platform ''hello'' = Inl SyntaxError \<and>
   handleDataChannelMessage example_platform example_env connected_hook (DString ''hello'') =
     Inr (connected_hook\<lparr>receivedMessages := receivedMessages connected_hook @
            [TextMessage (randomUUID example_env) ''hello'' Peer (now example_env)]\<rparr>)"
proof -
  have p: "JSON_parse example_platform ''hello'' = Inl SyntaxError"
    by (simp add: example_defs)
  from parse_failure_falls_back[of example_platform "''hello''" SyntaxError example_env connected_hook] p
  show ?thesis by simp
qed

text \<open>
  C7. A string frame that parses to a record of type \<^verbatim>\<open>file-meta\<close> sets the transfer
  state to the record's payload with no chunks, whatever it was before, and changes
  nothing else: the message log is as it was.
\<close>

theorem file_meta_replaces:
  assumes "JSON_parse P d = Inr message"
      and "get_prop message ''type'' = Inr (JStr ''file-meta'')"
  shows "\<exists>payload. get_prop message ''payload'' = Inr payload \<and>
           handleDataChannelMessage P e s (DString d) =
             Inr (s\<lparr>fileReceiver := Some \<lparr>info = payload, chunks = []\<rparr>\<rparr>) \<and>
           receivedMessages (s\<lparr>fileReceiver := Some \<lparr>info = payload, chunks = []\<rparr>\<rparr>) =
             receivedMessages s"
  using assms
  by (cases message) (simp_all add: handleDataChannelMessage_def handle_try_def bind_err_def)

text \<open>
  C7 at a state with a transfer in flight.
\<close>

theorem file_meta_replaces_witness:
  "JSON_parse example_platform example_meta_text = Inr (FileMetaMessage (FileInfo_js example_info)) \<and>
   get_prop (FileMetaMessage (FileInfo_js example_info)) ''type'' = Inr (JStr ''file-meta'') \<and>
   handleDataChannelMessage example_platform example_env
     (initial\<lparr>fileReceiver := Some \<lparr>info = JNull, chunks = [[7]]\<rparr>\<rparr>) (DString example_meta_text) =
     Inr (initial\<lparr>fileReceiver := Some \<lparr>info = FileInfo_js example_info, chunks = []\<rparr>\<rparr>)"
proof -
  have p: "JSON_parse example_platform example_meta_text = Inr (FileMetaMessage (FileInfo_js example_info))"
    by (simp add: example_defs)
  have t: "get_prop (FileMetaMessage (FileInfo_js example_info)) ''type'' = Inr (JStr ''file-meta'')"
    by (simp add: FileMetaMessage_def)
  from file_meta_replaces[OF p t, of example_env "initial\<lparr>fileReceiver := Some \<lparr>info = JNull, chunks = [[7]]\<rparr>\<rparr>"]
  show ?thesis using p t by (auto simp: FileMetaMessage_def)
qed

text \<open>
  C8. A string frame that parses to a record of type \<^verbatim>\<open>file-end\<close>, with no transfer
  in flight, leaves the whole state as it was.
\<close>

theorem file_end_without_transfer:
  assumes "JSON_parse P d = Inr message"
      and "get_prop message ''type'' = Inr (JStr ''file-end'')"
      and "fileReceiver s = None"
  shows "handleDataChannelMessage P e s (DString d) = Inr s"
  using assms
  by (simp add: handleDataChannelMessage_def handle_try_def bind_err_def)

text \<open>
  C8 at the connected offerer.
\<close>

theorem file_end_without_transfer_witness:
  "JSON_parse example_platform example_end_text = Inr FileEndMessage \<and>
   get_prop FileEndMessage ''type'' = Inr (JStr ''file-end'') \<and>
   fileReceiver connected_hook = None \<and>
   handleDataChannelMessage example_platform example_env connected_hook (DString example_end_text) =
     Inr connected_hook"
proof -
  have p: "JSON_parse example_platform example_end_text = Inr FileEndMessage"
    by (simp add: example_defs)
  have t: "get_prop FileEndMessage ''type'' = Inr (JStr ''file-end'')"
    by (simp add: FileEndMessage_def)
  have n: "fileReceiver connected_hook = None"
    by (simp add: example_defs split: sum.splits)
  from file_end_without_transfer[OF p t n, of example_env] p t n show ?thesis by simp
qed

text \<open>
  C9. Binary frames with a transfer in flight are appended to its chunks in arrival
  order, and nothing else changes; with no transfer in flight they leave the state as it
  was.
\<close>

theorem binary_frames_appended:
  "(fileReceiver s = Some r \<longrightarrow>
      receive_all P s (map (\<lambda>(e, b). (e, DArrayBuffer b)) ebs) =
        Inr (s\<lparr>fileReceiver := Some (r\<lparr>chunks := chunks r @ map snd ebs\<rparr>)\<rparr>)) \<and>
   (fileReceiver s = None \<longrightarrow>
      receive_all P s (map (\<lambda>(e, b). (e, DArrayBuffer b)) ebs) = Inr s)"
  using receive_chunks_active[of s r P ebs "[]"] receive_chunks_idle[of s P ebs] by simp

text \<open>
  C9 at two frames, with and without a transfer in flight.
\<close>

theorem binary_frames_appended_witness:
  "receive_all example_platform (initial\<lparr>fileReceiver := Some \<lparr>info = JNull, chunks = [[7]]\<rparr>\<rparr>)
     [(example_env, DArrayBuffer [1, 2]), (example_env, DArrayBuffer [3])] =
     Inr (initial\<lparr>fileReceiver := Some \<lparr>info = JNull, chunks = [[7], [1, 2], [3]]\<rparr>\<rparr>) \<and>
   receive_all example_platform initial
     [(example_env, DArrayBuffer [1, 2]), (example_env, DArrayBuffer [3])] = Inr initial"
proof -
  have a: "fileReceiver (initial\<lparr>fileReceiver := Some \<lparr>info = JNull, chunks = [[7]]\<rparr>\<rparr>) =
             Some \<lparr>info = JNull, chunks = [[7]]\<rparr>" by simp
  have b: "fileReceiver initial = None" by (simp add: initial_def)
  from binary_frames_appended[of "initial\<lparr>fileReceiver := Some \<lparr>info = JNull, chunks = [[7]]\<rparr>\<rparr>"
      "\<lparr>info = JNull, chunks = [[7]]\<rparr>" example_platform "[(example_env, [1, 2]), (example_env, [3])]"]
    binary_frames_appended[of initial "\<lparr>info = JNull, chunks = [[7]]\<rparr>" example_platform
      "[(example_env, [1, 2]), (example_env, [3])]"] a b
  show ?thesis by simp
qed

text \<open>
  C10, as the code has it. A string frame that parses to a value other than \<^verbatim>\<open>null\<close>
  whose \<^verbatim>\<open>type\<close> is none of \<^verbatim>\<open>text\<close>, \<^verbatim>\<open>file-meta\<close>, \<^verbatim>\<open>file-end\<close> leaves the
  whole state as it was. (\<^verbatim>\<open>JSON.parse\<close> never returns \<^verbatim>\<open>undefined\<close>; the type of values
  has it, so the statement excludes it.)
\<close>

theorem unknown_record_dropped:
  assumes "JSON_parse P d = Inr message"
      and "message \<noteq> JNull" and "message \<noteq> JUndefined"
      and "get_prop message ''type'' \<notin>
             {Inr (JStr ''text''), Inr (JStr ''file-meta''), Inr (JStr ''file-end'')}"
  shows "handleDataChannelMessage P e s (DString d) = Inr s"
  using assms
  by (cases message) (auto simp add: handleDataChannelMessage_def handle_try_def bind_err_def)

text \<open>
  C10 as amended, at the frame \<^verbatim>\<open>5\<close>.
\<close>

theorem unknown_record_dropped_witness:
  "JSON_parse example_platform ''5'' = Inr (JNum 5) \<and>
   get_prop (JNum 5) ''type'' \<notin>
     {Inr (JStr ''text''), Inr (JStr ''file-meta''), Inr (JStr ''file-end'')} \<and>
   handleDataChannelMessage example_platform example_env connected_hook (DString ''5'') =
     Inr connected_hook"
proof -
  have p: "JSON_parse example_platform ''5'' = Inr (JNum 5)"
    by (simp add: example_defs)
  have t: "get_prop (JNum 5) ''type'' \<notin>
     {Inr (JStr ''text''), Inr (JStr ''file-meta''), Inr (JStr ''file-end'')}" by simp
  from unknown_record_dropped[OF p _ _ t, of example_env connected_hook] p t show ?thesis by simp
qed

text \<open>
  C10 as stated fails: the frame \<^verbatim>\<open>null\<close> parses, reading \<^verbatim>\<open>type\<close> of the result
  throws inside the \<^verbatim>\<open>try\<close> block, and the \<^verbatim>\<open>catch\<close> block logs the frame as text.
\<close>

theorem json_null_takes_fallback:
  "JSON_parse example_platform ''null'' = Inr JNull \<and>
   get_prop JNull ''type'' \<notin>
     {Inr (JStr ''text''), Inr (JStr ''file-meta''), Inr (JStr ''file-end'')} \<and>
   handleDataChannelMessage example_platform example_env initial (DString ''null'') =
     Inr (initial\<lparr>receivedMessages :=
            [TextMessage (randomUUID example_env) ''null'' Peer (now example_env)]\<rparr>) \<and>
   handleDataChannelMessage example_platform example_env initial (DString ''null'') \<noteq> Inr initial"
  by (simp add: handleDataChannelMessage_def handle_try_def handle_catch_def bind_err_def
      example_defs)

end
